theory Spec2Isabelle
  imports Main
begin

section \<open>Python strings: digits, case, decimal numerals\<close>

text \<open>
  Strings are lists of \<^typ>\<open>char\<close>. The source's strings are Python \<open>str\<close> values; the
  model covers the ASCII repertoire: \<open>str.lower\<close> and \<open>str.upper\<close> act on the 26 ASCII
  letters and leave every other character alone, and the regular expression class
  \<open>\d\<close> is the ten ASCII digits.
\<close>

definition is_digit :: "char \<Rightarrow> bool" where
  "is_digit c = (48 \<le> (of_char c :: nat) \<and> (of_char c :: nat) \<le> 57)"

definition digit_val :: "char \<Rightarrow> nat" where
  "digit_val c = of_char c - 48"

definition digit_char :: "nat \<Rightarrow> char" where
  "digit_char d = char_of (48 + d)"

definition lower_char :: "char \<Rightarrow> char" where
  "lower_char c =
     (case map_of (zip ''ABCDEFGHIJKLMNOPQRSTUVWXYZ'' ''abcdefghijklmnopqrstuvwxyz'') c of
        Some d \<Rightarrow> d
      | None \<Rightarrow> c)"

definition upper_char :: "char \<Rightarrow> char" where
  "upper_char c =
     (case map_of (zip ''abcdefghijklmnopqrstuvwxyz'' ''ABCDEFGHIJKLMNOPQRSTUVWXYZ'') c of
        Some d \<Rightarrow> d
      | None \<Rightarrow> c)"

text \<open>\<open>s.lower()\<close> and \<open>s.upper()\<close>.\<close>

definition lower :: "string \<Rightarrow> string" where
  "lower s = map lower_char s"

definition upper :: "string \<Rightarrow> string" where
  "upper s = map upper_char s"

text \<open>\<open>str(n)\<close> for a Python int: decimal digits, a minus sign for a negative value.\<close>

fun str_nat :: "nat \<Rightarrow> string" where
  "str_nat n = (if n < 10 then [digit_char n] else str_nat (n div 10) @ [digit_char (n mod 10)])"

declare str_nat.simps [simp del]

definition str_int :: "int \<Rightarrow> string" where
  "str_int i = (if i < 0 then CHR ''-'' # str_nat (nat (- i)) else str_nat (nat i))"

text \<open>\<open>int(ds)\<close> for a string of decimal digits (what \<open>\d+\<close> has matched).\<close>

definition int_of_digits :: "string \<Rightarrow> int" where
  "int_of_digits ds = int (foldl (\<lambda>a c. 10 * a + digit_val c) 0 ds)"

section \<open>Paths: \<open>os.path\<close> and \<open>pathlib\<close> on POSIX\<close>

text \<open>\<open>s.split(sep)\<close> for a one-character separator.\<close>

fun split_on :: "char \<Rightarrow> string \<Rightarrow> string list" where
  "split_on sep [] = [[]]"
| "split_on sep (c # cs) =
     (if c = sep then [] # split_on sep cs
      else (case split_on sep cs of
              [] \<Rightarrow> [[c]]
            | p # ps \<Rightarrow> (c # p) # ps))"

text \<open>\<open>s.rfind(c)\<close>: the index of the last occurrence, \<open>-1\<close> when there is none.\<close>

definition rfind :: "char \<Rightarrow> string \<Rightarrow> int" where
  "rfind c s =
     (if c \<in> set s then int (length s) - 1 - int (length (takeWhile (\<lambda>x. x \<noteq> c) (rev s)))
      else - 1)"

text \<open>
  \<open>Path(p).name\<close>: the last of the path's parts, where empty parts and \<open>.\<close> parts are
  dropped; the empty string when no part is left.
\<close>

definition path_name :: "string \<Rightarrow> string" where
  "path_name p =
     (case filter (\<lambda>x. x \<noteq> [] \<and> x \<noteq> ''.'') (split_on CHR ''/'' p) of
        [] \<Rightarrow> []
      | x # xs \<Rightarrow> last (x # xs))"

text \<open>
  \<open>Path(p).suffix\<close> and \<open>Path(p).stem\<close>: the name is cut at its last dot, unless that dot
  is the first or the last character of the name.
\<close>

definition path_suffix :: "string \<Rightarrow> string" where
  "path_suffix p =
     (let name = path_name p; i = rfind CHR ''.'' name
      in if 0 < i \<and> i < int (length name) - 1 then drop (nat i) name else [])"

definition path_stem :: "string \<Rightarrow> string" where
  "path_stem p =
     (let name = path_name p; i = rfind CHR ''.'' name
      in if 0 < i \<and> i < int (length name) - 1 then take (nat i) name else name)"

text \<open>\<open>os.path.join(a, b)\<close> and \<open>os.path.basename(p)\<close>.\<close>

definition os_path_join :: "string \<Rightarrow> string \<Rightarrow> string" where
  "os_path_join a b =
     (if b \<noteq> [] \<and> hd b = CHR ''/'' then b
      else if a = [] \<or> last a = CHR ''/'' then a @ b
      else a @ ''/'' @ b)"

definition os_path_basename :: "string \<Rightarrow> string" where
  "os_path_basename p = drop (nat (rfind CHR ''/'' p + 1)) p"

section \<open>The world outside the program\<close>

text \<open>
  The program reads and changes a file system, writes to the console and starts the
  external tool. The file system maps a path to what is there: a file with its size in
  bytes, or a directory with its size and the names \<open>os.scandir\<close> lists in it.
\<close>

datatype node = File nat | Dir nat "string list"

type_synonym filesystem = "string \<Rightarrow> node option"

datatype exn =
    FileNotFoundError
  | FileExistsError
  | ZeroDivisionError
  | UnboundLocalError
  | OtherException string

text \<open>\<open>os.path.exists(p)\<close> and \<open>os.path.getsize(p)\<close>, which raises on a missing path.\<close>

definition path_exists :: "filesystem \<Rightarrow> string \<Rightarrow> bool" where
  "path_exists fsys p = (fsys p \<noteq> None)"

definition getsize :: "filesystem \<Rightarrow> string \<Rightarrow> exn + nat" where
  "getsize fsys p =
     (case fsys p of
        None \<Rightarrow> Inl FileNotFoundError
      | Some (File n) \<Rightarrow> Inr n
      | Some (Dir n es) \<Rightarrow> Inr n)"

text \<open>
  \<open>os.makedirs(p, exist_ok=True)\<close> for a path of one component, as the batch calls it:
  an existing directory is left alone, a file of that name raises. The size a new
  directory reports depends on the file system; the model takes 0.
\<close>

definition makedirs :: "filesystem \<Rightarrow> string \<Rightarrow> exn + filesystem" where
  "makedirs fsys p =
     (case fsys p of
        None \<Rightarrow> Inr (fsys(p \<mapsto> Dir 0 []))
      | Some (Dir n es) \<Rightarrow> Inr fsys
      | Some (File n) \<Rightarrow> Inl FileExistsError)"

text \<open>The names \<open>glob\<close> reads from a directory; a path that cannot be listed gives none.\<close>

definition scandir :: "filesystem \<Rightarrow> string \<Rightarrow> string list" where
  "scandir fsys d =
     (case fsys d of
        Some (Dir n es) \<Rightarrow> es
      | _ \<Rightarrow> [])"

text \<open>What the program prints: one constructor per message of the source (the lines of the
  size report and of the final summary are one message each; elapsed time is left out).\<close>

datatype line =
    FontFileMissing string
  | TextFileMissing string
  | Compressing string "int option"
  | CommandLine "string list"
  | CompressSucceeded string
  | SizeReport nat nat
  | CompressFailed string
  | ToolNotFound
  | CompressError exn
  | SourceDirMissing string
  | CharsetFileMissing string
  | NoFontFiles string
  | FoundFonts "string list"
  | ProcessingFile nat nat
  | CollectionDetected int
  | ProcessingSubFont int int
  | Summary nat nat nat nat string

record world =
  fs :: filesystem
  console :: "line list"
  invocations :: "string list list"

definition emit :: "line \<Rightarrow> world \<Rightarrow> world" where
  "emit l w = w\<lparr>console := console w @ [l]\<rparr>"

text \<open>
  The external collaborators. \<open>ttfont\<close> is \<open>ttLib.TTFont(font_file)\<close> followed by
  \<open>close()\<close>: it returns, raises \<open>TTLibFileIsCollectionError\<close> with a message, or raises
  another exception. \<open>subprocess_run\<close> is \<open>subprocess.run(cmd, ...)\<close>: given the earlier
  invocations, the file system and the command, the process completes with a return
  code and its error text, or the call raises; either way it may change the file system.
\<close>

datatype open_result = Opened | CollectionError string | OpenFailed

datatype proc_result = Completed int string | RunRaised exn

record env =
  fonttools_importable :: bool
  ttfont :: "filesystem \<Rightarrow> string \<Rightarrow> open_result"
  subprocess_run :: "string list list \<Rightarrow> filesystem \<Rightarrow> string list \<Rightarrow> proc_result \<times> filesystem"

section \<open>Font discovery: \<open>get_font_files\<close>\<close>

text \<open>
  \<open>fnmatch\<close> on POSIX, where names and patterns are compared as they are (case matters),
  for patterns made of literal characters and \<open>*\<close>, which is what the five patterns and
  their upper-case forms are.
\<close>

fun fnmatch :: "string \<Rightarrow> string \<Rightarrow> bool" where
  "fnmatch [] [] = True"
| "fnmatch (c # cs) [] = False"
| "fnmatch [] (p # ps) = (p = CHR ''*'' \<and> fnmatch [] ps)"
| "fnmatch (c # cs) (p # ps) =
     (if p = CHR ''*'' then fnmatch (c # cs) ps \<or> fnmatch cs (p # ps)
      else c = p \<and> fnmatch cs ps)"

definition ishidden :: "string \<Rightarrow> bool" where
  "ishidden n = (case n of [] \<Rightarrow> False | c # cs \<Rightarrow> c = CHR ''.'')"

text \<open>
  \<open>glob.glob(os.path.join(d, pat))\<close> on POSIX, for a plain directory name \<open>d\<close> (not
  empty, no wildcard character, no slash at its end: the batch passes \<open>sourceFont\<close>) and
  a pattern with a wildcard: the names of \<open>d\<close> that are not hidden and match, each
  joined to \<open>d\<close>. For other directory arguments \<open>glob\<close> expands or normalises the
  directory part first; that is not modelled, and the properties of discovery below
  are stated for \<open>sourceFont\<close>.
\<close>

definition glob1 :: "filesystem \<Rightarrow> string \<Rightarrow> string \<Rightarrow> string list" where
  "glob1 fsys d pat =
     map (os_path_join d) (filter (\<lambda>n. \<not> ishidden n \<and> fnmatch n pat) (scandir fsys d))"

definition font_extensions :: "string list" where
  "font_extensions = [''*.ttf'', ''*.otf'', ''*.woff'', ''*.woff2'', ''*.ttc'']"

definition get_font_files :: "filesystem \<Rightarrow> string \<Rightarrow> string list" where
  "get_font_files fsys source_dir =
     concat (map (\<lambda>ext. glob1 fsys source_dir ext @ glob1 fsys source_dir (upper ext))
       font_extensions)"

section \<open>Collection inspector: \<open>get_font_count_in_collection\<close>\<close>

text \<open>
  \<open>re.search(r'between 0 and (\d+)', msg)\<close>: the leftmost position where the literal is
  followed by at least one digit; group 1 is the longest run of digits there.
\<close>

definition match_here :: "string \<Rightarrow> string option" where
  "match_here s =
     (let lit = ''between 0 and ''; ds = takeWhile is_digit (drop (length lit) s)
      in if take (length lit) s = lit \<and> ds \<noteq> [] then Some ds else None)"

fun re_search :: "string \<Rightarrow> string option" where
  "re_search [] = None"
| "re_search (c # cs) =
     (case match_here (c # cs) of
        Some ds \<Rightarrow> Some ds
      | None \<Rightarrow> re_search cs)"

text \<open>
  When the import inside the \<open>try\<close> fails, the first \<open>except\<close> clause reads the unbound
  local \<open>ttLib\<close>, and that \<open>UnboundLocalError\<close> leaves the function.
\<close>

definition get_font_count_in_collection :: "env \<Rightarrow> filesystem \<Rightarrow> string \<Rightarrow> exn + int" where
  "get_font_count_in_collection e fsys font_file =
     (if \<not> fonttools_importable e then Inl UnboundLocalError
      else (case ttfont e fsys font_file of
              Opened \<Rightarrow> Inr 1
            | CollectionError error_msg \<Rightarrow>
                (case re_search error_msg of
                   Some ds \<Rightarrow> Inr (int_of_digits ds + 1)
                 | None \<Rightarrow> Inr 0)
            | OpenFailed \<Rightarrow> Inr 0))"

section \<open>Subset invoker: \<open>compress_single_font\<close>\<close>

definition output_file_name :: "string \<Rightarrow> string \<Rightarrow> int option \<Rightarrow> string" where
  "output_file_name font_file output_dir font_index =
     (let font_name = path_stem font_file;
          font_ext = lower (path_suffix font_file)
      in (case font_index of
            Some i \<Rightarrow> os_path_join output_dir (font_name @ ''-'' @ str_int i @ ''-subset.ttf'')
          | None \<Rightarrow>
              if font_ext = ''.ttc'' then os_path_join output_dir (font_name @ ''-subset.ttf'')
              else os_path_join output_dir (font_name @ ''-subset'' @ font_ext)))"

definition build_cmd :: "string \<Rightarrow> string \<Rightarrow> string \<Rightarrow> int option \<Rightarrow> string list" where
  "build_cmd font_file text_file output_file font_index =
     [''fonttools'', ''subset'', font_file,
      ''--text-file='' @ text_file,
      ''--output-file='' @ output_file]
     @ (case font_index of
          Some i \<Rightarrow> [''--font-number='' @ str_int i]
        | None \<Rightarrow> [])"

text \<open>The two \<open>except\<close> clauses: \<open>FileNotFoundError\<close> first, any other exception second.\<close>

definition handle_exn :: "exn \<Rightarrow> world \<Rightarrow> bool \<times> world" where
  "handle_exn x w =
     (if x = FileNotFoundError then (False, emit ToolNotFound w)
      else (False, emit (CompressError x) w))"

text \<open>
  The size report after a zero return code. The sizes are divided as floats; the only
  step that can raise is the division by the source's size when that size is 0.
\<close>

definition report_sizes :: "string \<Rightarrow> string \<Rightarrow> world \<Rightarrow> bool \<times> world" where
  "report_sizes font_file output_file w =
     (case getsize (fs w) font_file of
        Inl x \<Rightarrow> handle_exn x w
      | Inr original_size \<Rightarrow>
          (case getsize (fs w) output_file of
             Inl x \<Rightarrow> handle_exn x w
           | Inr compressed_size \<Rightarrow>
               if original_size = 0 then handle_exn ZeroDivisionError w
               else (True, emit (SizeReport original_size compressed_size) w)))"

definition compress_single_font ::
  "env \<Rightarrow> world \<Rightarrow> string \<Rightarrow> string \<Rightarrow> string \<Rightarrow> int option \<Rightarrow> bool \<times> world" where
  "compress_single_font e w font_file text_file output_dir font_index =
     (if \<not> path_exists (fs w) font_file then (False, emit (FontFileMissing font_file) w)
      else if \<not> path_exists (fs w) text_file then (False, emit (TextFileMissing text_file) w)
      else
        let output_file = output_file_name font_file output_dir font_index;
            cmd = build_cmd font_file text_file output_file font_index;
            w1 = emit (CommandLine cmd)
                   (emit (Compressing (os_path_basename font_file) font_index) w);
            (result, fs') = subprocess_run e (invocations w1) (fs w1) cmd;
            w2 = w1\<lparr>fs := fs', invocations := invocations w1 @ [cmd]\<rparr>
        in (case result of
              RunRaised x \<Rightarrow> handle_exn x w2
            | Completed returncode stderr \<Rightarrow>
                if returncode = 0
                then report_sizes font_file output_file
                       (emit (CompressSucceeded (os_path_basename output_file)) w2)
                else (False, emit (CompressFailed stderr) w2)))"

section \<open>Batch orchestrator: \<open>batch_compress_fonts\<close>\<close>

record counters =
  successful_count :: nat
  failed_count :: nat
  total_fonts_processed :: nat

definition zero_counters :: counters where
  "zero_counters = \<lparr>successful_count = 0, failed_count = 0, total_fonts_processed = 0\<rparr>"

text \<open>
  The four lines that follow every call of \<open>compress_single_font\<close> in the loop: one of
  the two counters goes up by the call's result, then the total.
\<close>

definition count_job :: "bool \<Rightarrow> counters \<Rightarrow> counters" where
  "count_job ok c =
     (let c1 = (if ok then c\<lparr>successful_count := successful_count c + 1\<rparr>
                else c\<lparr>failed_count := failed_count c + 1\<rparr>)
      in c1\<lparr>total_fonts_processed := total_fonts_processed c1 + 1\<rparr>)"

definition run_job ::
  "env \<Rightarrow> string \<Rightarrow> string \<Rightarrow> string \<Rightarrow> int option \<Rightarrow> counters \<times> world \<Rightarrow> counters \<times> world" where
  "run_job e text_file output_dir font_file font_index s =
     (let (ok, w') = compress_single_font e (snd s) font_file text_file output_dir font_index
      in (count_job ok (fst s), w'))"

text \<open>\<open>range(n)\<close>, and the loop over it that handles the fonts of one collection.\<close>

definition range_list :: "int \<Rightarrow> int list" where
  "range_list n = map int [0..<nat n]"

fun fan_out ::
  "env \<Rightarrow> string \<Rightarrow> string \<Rightarrow> string \<Rightarrow> int \<Rightarrow> int list \<Rightarrow> counters \<times> world \<Rightarrow> counters \<times> world" where
  "fan_out e text_file output_dir font_file font_count [] s = s"
| "fan_out e text_file output_dir font_file font_count (font_index # rest) s =
     fan_out e text_file output_dir font_file font_count rest
       (run_job e text_file output_dir font_file (Some font_index)
          (fst s, emit (ProcessingSubFont (font_index + 1) font_count) (snd s)))"

text \<open>The body of the loop over the font files; \<open>i\<close> of \<open>n\<close> is the file's position.\<close>

definition process_file ::
  "env \<Rightarrow> string \<Rightarrow> string \<Rightarrow> nat \<Rightarrow> nat \<Rightarrow> string \<Rightarrow> counters \<times> world \<Rightarrow> exn + counters \<times> world" where
  "process_file e text_file output_dir n i font_file s =
     (let c = fst s;
          w = emit (ProcessingFile i n) (snd s);
          font_ext = lower (path_suffix font_file)
      in if font_ext = ''.ttc'' then
           (case get_font_count_in_collection e (fs w) font_file of
              Inl x \<Rightarrow> Inl x
            | Inr font_count \<Rightarrow>
                if font_count > 1
                then Inr (fan_out e text_file output_dir font_file font_count
                            (range_list font_count) (c, emit (CollectionDetected font_count) w))
                else Inr (run_job e text_file output_dir font_file None (c, w)))
         else Inr (run_job e text_file output_dir font_file None (c, w)))"

fun files_loop ::
  "env \<Rightarrow> string \<Rightarrow> string \<Rightarrow> nat \<Rightarrow> nat \<Rightarrow> string list \<Rightarrow> counters \<times> world \<Rightarrow> exn + counters \<times> world" where
  "files_loop e text_file output_dir n i [] s = Inr s"
| "files_loop e text_file output_dir n i (font_file # rest) s =
     (case process_file e text_file output_dir n i font_file s of
        Inl x \<Rightarrow> Inl x
      | Inr s' \<Rightarrow> files_loop e text_file output_dir n (i + 1) rest s')"

text \<open>
  The whole run. It returns the function's boolean with the counters and the world it
  leaves, or the exception that ends it. The counters are local variables set to 0
  after the checks; the model shows them as 0 on the paths that return before that.
\<close>

definition batch_compress_fonts :: "env \<Rightarrow> world \<Rightarrow> exn + bool \<times> counters \<times> world" where
  "batch_compress_fonts e w =
     (let source_dir = ''sourceFont''; output_dir = ''targetFont''; text_file = ''txt.txt''
      in if \<not> path_exists (fs w) source_dir
         then Inr (False, zero_counters, emit (SourceDirMissing source_dir) w)
         else if \<not> path_exists (fs w) text_file
         then Inr (False, zero_counters, emit (CharsetFileMissing text_file) w)
         else
           (case makedirs (fs w) output_dir of
              Inl x \<Rightarrow> Inl x
            | Inr fs1 \<Rightarrow>
                let w1 = w\<lparr>fs := fs1\<rparr>;
                    font_files = get_font_files (fs w1) source_dir
                in if font_files = []
                   then Inr (False, zero_counters, emit (NoFontFiles source_dir) w1)
                   else
                     (case files_loop e text_file output_dir (length font_files) 1 font_files
                             (zero_counters,
                              emit (FoundFonts (map os_path_basename font_files)) w1) of
                        Inl x \<Rightarrow> Inl x
                      | Inr (c, w2) \<Rightarrow>
                          Inr (successful_count c > 0, c,
                               emit (Summary (length font_files) (total_fonts_processed c)
                                       (successful_count c) (failed_count c) output_dir) w2))))"

section \<open>Notions used by the properties\<close>

text \<open>The summary invariant: successes plus failures make up the jobs processed.\<close>

definition tallied :: "counters \<Rightarrow> bool" where
  "tallied c = (successful_count c + failed_count c = total_fonts_processed c)"

definition summary_ok :: "line \<Rightarrow> bool" where
  "summary_ok l =
     (case l of
        Summary n t sc fl d \<Rightarrow> sc + fl = t
      | _ \<Rightarrow> True)"

text \<open>
  A sample run, after the scenario of the specification: a source directory with
  \<open>Serif.ttf\<close> and \<open>Collection.ttc\<close>, the latter a collection of two fonts, and a tool
  that writes its output file and exits with 0.
\<close>

definition demo_fs :: filesystem where
  "demo_fs =
     [''sourceFont'' \<mapsto> Dir 0 [''Serif.ttf'', ''Collection.ttc''],
      ''txt.txt'' \<mapsto> File 10,
      ''sourceFont/Serif.ttf'' \<mapsto> File 4096,
      ''sourceFont/Collection.ttc'' \<mapsto> File 8192]"

definition demo_env :: env where
  "demo_env =
     \<lparr>fonttools_importable = True,
      ttfont = (\<lambda>fsys p.
        if p = ''sourceFont/Collection.ttc''
        then CollectionError ''specify a font number between 0 and 1 (inclusive)''
        else Opened),
      subprocess_run = (\<lambda>h fsys cmd.
        (Completed 0 [], fsys(drop (length ''--output-file='') (cmd ! 4) \<mapsto> File 1024)))\<rparr>"

definition demo_world :: world where
  "demo_world = \<lparr>fs = demo_fs, console = [], invocations = []\<rparr>"

text \<open>Worlds in which a precondition of the run fails.\<close>

definition world_of :: "filesystem \<Rightarrow> world" where
  "world_of fsys = \<lparr>fs = fsys, console = [], invocations = []\<rparr>"

definition no_source_fs :: filesystem where
  "no_source_fs = [''txt.txt'' \<mapsto> File 10]"

definition no_charset_fs :: filesystem where
  "no_charset_fs =
     [''sourceFont'' \<mapsto> Dir 0 [''Serif.ttf''], ''sourceFont/Serif.ttf'' \<mapsto> File 4096]"

definition no_fonts_fs :: filesystem where
  "no_fonts_fs = [''sourceFont'' \<mapsto> Dir 0 [''notes.txt''], ''txt.txt'' \<mapsto> File 10]"

text \<open>
  Variations of the sample run: a collection whose count cannot be determined, a tool
  that exits with 0 without writing its output, and a tool that is not installed.
\<close>

definition broken_env :: env where
  "broken_env = demo_env\<lparr>ttfont := (\<lambda>fsys p. OpenFailed)\<rparr>"

definition collection_fs :: filesystem where
  "collection_fs =
     [''sourceFont'' \<mapsto> Dir 0 [''Collection.ttc''],
      ''txt.txt'' \<mapsto> File 10,
      ''sourceFont/Collection.ttc'' \<mapsto> File 8192]"

definition silent_env :: env where
  "silent_env = demo_env\<lparr>subprocess_run := (\<lambda>h fsys cmd. (Completed 0 [], fsys))\<rparr>"

definition absent_env :: env where
  "absent_env = demo_env\<lparr>subprocess_run := (\<lambda>h fsys cmd. (RunRaised FileNotFoundError, fsys))\<rparr>"

definition two_fonts_fs :: filesystem where
  "two_fonts_fs =
     [''sourceFont'' \<mapsto> Dir 0 [''Serif.ttf'', ''Sans.otf''],
      ''txt.txt'' \<mapsto> File 10,
      ''sourceFont/Serif.ttf'' \<mapsto> File 4096,
      ''sourceFont/Sans.otf'' \<mapsto> File 2048]"

text \<open>
  \<open>s.endswith(suf)\<close>, the ten endings the ten patterns of discovery stand for, and a
  source directory with a mixed-case extension and a hidden file.
\<close>

definition endswith :: "string \<Rightarrow> string \<Rightarrow> bool" where
  "endswith s suf = (length suf \<le> length s \<and> drop (length s - length suf) s = suf)"

definition matched_suffixes :: "string list" where
  "matched_suffixes =
     [''.ttf'', ''.TTF'', ''.otf'', ''.OTF'', ''.woff'', ''.WOFF'', ''.woff2'', ''.WOFF2'',
      ''.ttc'', ''.TTC'']"

definition mixed_case_fs :: filesystem where
  "mixed_case_fs =
     [''sourceFont'' \<mapsto> Dir 0 [''Serif.Ttf'', ''.hidden.ttf''],
      ''txt.txt'' \<mapsto> File 10,
      ''sourceFont/Serif.Ttf'' \<mapsto> File 4096,
      ''sourceFont/.hidden.ttf'' \<mapsto> File 4096]"

text \<open>A library that reports a collection without naming an index range.\<close>

definition vague_env :: env where
  "vague_env = demo_env\<lparr>ttfont := (\<lambda>fsys p. CollectionError ''this file is a collection'')\<rparr>"

section \<open>Basic facts\<close>

lemma fs_emit [simp]: "fs (emit l w) = fs w"
  by (simp add: emit_def)

lemma invocations_emit [simp]: "invocations (emit l w) = invocations w"
  by (simp add: emit_def)

lemma console_emit [simp]: "console (emit l w) = console w @ [l]"
  by (simp add: emit_def)

section \<open>The counters\<close>

lemma count_job_total: "total_fonts_processed (count_job ok c) = total_fonts_processed c + 1"
  by (simp add: count_job_def)

lemma count_job_one:
  "(successful_count (count_job ok c), failed_count (count_job ok c)) =
     (if ok then (successful_count c + 1, failed_count c)
      else (successful_count c, failed_count c + 1))"
  by (simp add: count_job_def)

lemma tallied_zero: "tallied zero_counters"
  by (simp add: tallied_def zero_counters_def)

lemma tallied_count_job: "tallied c \<Longrightarrow> tallied (count_job ok c)"
  by (simp add: tallied_def count_job_def)

lemma fst_run_job:
  "fst (run_job e tf od f idx s) =
     count_job (fst (compress_single_font e (snd s) f tf od idx)) (fst s)"
  by (simp add: run_job_def split: prod.splits)

lemma snd_run_job:
  "snd (run_job e tf od f idx s) = snd (compress_single_font e (snd s) f tf od idx)"
  by (simp add: run_job_def split: prod.splits)

lemma tallied_run_job: "tallied (fst s) \<Longrightarrow> tallied (fst (run_job e tf od f idx s))"
  by (simp add: fst_run_job tallied_count_job)

lemma tallied_fan_out: "tallied (fst s) \<Longrightarrow> tallied (fst (fan_out e tf od f k idxs s))"
  by (induction idxs arbitrary: s) (simp_all add: tallied_run_job)

lemma tallied_process_file:
  "tallied (fst s) \<Longrightarrow> process_file e tf od n i f s = Inr s' \<Longrightarrow> tallied (fst s')"
  by (auto simp: process_file_def Let_def tallied_run_job tallied_fan_out
      split: if_splits sum.splits)

lemma tallied_files_loop:
  "tallied (fst s) \<Longrightarrow> files_loop e tf od n i files s = Inr s' \<Longrightarrow> tallied (fst s')"
proof (induction files arbitrary: s i)
  case Nil
  then show ?case by simp
next
  case (Cons f files)
  then show ?case
    by (auto split: sum.splits dest: tallied_process_file)
qed

text \<open>
  The state in the middle of a loop is the loop's result on the part of the list it has
  gone through, so a fact about the loops on every list is a fact about every state
  between two jobs.
\<close>

lemma files_loop_append:
  "files_loop e tf od n i (xs @ ys) s =
     (case files_loop e tf od n i xs s of
        Inl x \<Rightarrow> Inl x
      | Inr s' \<Rightarrow> files_loop e tf od n (i + length xs) ys s')"
  by (induction xs arbitrary: s i) (auto split: sum.splits)

lemma fan_out_append:
  "fan_out e tf od f k (xs @ ys) s = fan_out e tf od f k ys (fan_out e tf od f k xs s)"
  by (induction xs arbitrary: s) simp_all

lemma batch_tallied: "batch_compress_fonts e w = Inr (b, c, w') \<Longrightarrow> tallied c"
  by (auto simp: batch_compress_fonts_def Let_def tallied_zero
      split: if_splits sum.splits prod.splits dest!: tallied_files_loop[rotated])

lemma batch_summary_ok:
  assumes "batch_compress_fonts e w = Inr (b, c, w')"
  shows "summary_ok (last (console w'))"
proof -
  have "successful_count c + failed_count c = total_fonts_processed c"
    using batch_tallied [OF assms] by (simp add: tallied_def)
  then show ?thesis
    using assms
    by (auto simp: batch_compress_fonts_def Let_def summary_ok_def
        split: if_splits sum.splits prod.splits)
qed

text \<open>
  C2. Successes plus failures equal the jobs processed: before the first job; after
  every job, which adds one to the total and one to exactly one of the two counters;
  after every part of the loop over a collection's fonts and of the loop over the
  files; in the counters the run ends with; and in the summary it prints.
\<close>

theorem counters_sum_to_total:
  assumes "tallied (fst s)"
  shows "tallied zero_counters
    \<and> total_fonts_processed (fst (run_job e tf od f idx s)) = total_fonts_processed (fst s) + 1
    \<and> (successful_count (fst (run_job e tf od f idx s)), failed_count (fst (run_job e tf od f idx s)))
        \<in> {(successful_count (fst s) + 1, failed_count (fst s)),
           (successful_count (fst s), failed_count (fst s) + 1)}
    \<and> tallied (fst (run_job e tf od f idx s))
    \<and> tallied (fst (fan_out e tf od f k idxs s))
    \<and> (case process_file e tf od n i f s of Inl x \<Rightarrow> True | Inr s' \<Rightarrow> tallied (fst s'))
    \<and> (case files_loop e tf od n i files s of Inl x \<Rightarrow> True | Inr s' \<Rightarrow> tallied (fst s'))
    \<and> (case batch_compress_fonts e w of
          Inl x \<Rightarrow> True
        | Inr (b, c, w') \<Rightarrow> tallied c \<and> summary_ok (last (console w')))"
proof -
  have 1: "total_fonts_processed (fst (run_job e tf od f idx s)) = total_fonts_processed (fst s) + 1"
    by (simp add: fst_run_job count_job_total)
  have 2: "(successful_count (fst (run_job e tf od f idx s)), failed_count (fst (run_job e tf od f idx s)))
        \<in> {(successful_count (fst s) + 1, failed_count (fst s)),
           (successful_count (fst s), failed_count (fst s) + 1)}"
    by (simp add: fst_run_job count_job_one)
  have 3: "case process_file e tf od n i f s of Inl x \<Rightarrow> True | Inr s' \<Rightarrow> tallied (fst s')"
    using assms by (auto split: sum.splits dest: tallied_process_file)
  have 4: "case files_loop e tf od n i files s of Inl x \<Rightarrow> True | Inr s' \<Rightarrow> tallied (fst s')"
    using assms by (auto split: sum.splits dest: tallied_files_loop)
  have 5: "case batch_compress_fonts e w of
          Inl x \<Rightarrow> True
        | Inr (b, c, w') \<Rightarrow> tallied c \<and> summary_ok (last (console w'))"
    by (auto split: sum.splits dest: batch_tallied batch_summary_ok)
  show ?thesis
    using assms 1 2 3 4 5 by (simp add: tallied_zero tallied_run_job tallied_fan_out)
qed

theorem counters_sum_to_total_witness:
  "tallied (fst (zero_counters, demo_world))
    \<and> tallied (fst (run_job demo_env ''txt.txt'' ''targetFont'' ''sourceFont/Serif.ttf'' None
          (zero_counters, demo_world)))
    \<and> total_fonts_processed (fst (run_job demo_env ''txt.txt'' ''targetFont''
          ''sourceFont/Serif.ttf'' None (zero_counters, demo_world))) = 1
    \<and> tallied (fst (fan_out demo_env ''txt.txt'' ''targetFont'' ''sourceFont/Collection.ttc'' 2
          [0, 1] (zero_counters, demo_world)))
    \<and> (case batch_compress_fonts demo_env demo_world of
          Inl x \<Rightarrow> True
        | Inr (b, c, w') \<Rightarrow> tallied c \<and> summary_ok (last (console w')))"
proof -
  have h: "tallied (fst (zero_counters, demo_world))"
    by (simp add: tallied_zero)
  show ?thesis
    using h
      counters_sum_to_total [OF h, where e = demo_env and tf = "''txt.txt''"
        and od = "''targetFont''" and f = "''sourceFont/Serif.ttf''" and idx = None]
      counters_sum_to_total [OF h, where e = demo_env and tf = "''txt.txt''"
        and od = "''targetFont''" and f = "''sourceFont/Collection.ttc''" and k = 2
        and idxs = "[0, 1]" and w = demo_world]
    by (simp add: zero_counters_def)
qed

section \<open>Failing preconditions\<close>

lemma scandir_makedirs:
  "makedirs fsys p = Inr fs1 \<Longrightarrow> d \<noteq> p \<Longrightarrow> scandir fs1 d = scandir fsys d"
  by (auto simp: makedirs_def scandir_def split: option.splits node.splits)

lemma get_font_files_makedirs:
  "makedirs fsys p = Inr fs1 \<Longrightarrow> d \<noteq> p \<Longrightarrow> get_font_files fs1 d = get_font_files fsys d"
  by (simp add: get_font_files_def glob1_def scandir_makedirs)

lemma path_exists_makedirs:
  "makedirs fsys p = Inr fs1 \<Longrightarrow> path_exists fs1 p"
  by (auto simp: makedirs_def path_exists_def split: option.splits node.splits)

text \<open>
  C7. When the source directory is missing, or the character-list file is missing, or
  the directory is made and discovery finds no font file, the run returns False with
  all three counters at 0 and without a single invocation of the tool.
\<close>

theorem fatal_preconditions_abort:
  assumes "\<not> path_exists (fs w) ''sourceFont'' \<or> \<not> path_exists (fs w) ''txt.txt'' \<or>
           (\<exists>fs1. makedirs (fs w) ''targetFont'' = Inr fs1 \<and> get_font_files fs1 ''sourceFont'' = [])"
  shows "\<exists>w'. batch_compress_fonts e w = Inr (False, zero_counters, w')
            \<and> invocations w' = invocations w"
  using assms by (auto simp: batch_compress_fonts_def Let_def)

theorem fatal_preconditions_abort_witness:
  "\<not> path_exists (fs (world_of no_source_fs)) ''sourceFont''
   \<and> (\<exists>w'. batch_compress_fonts demo_env (world_of no_source_fs) = Inr (False, zero_counters, w')
          \<and> invocations w' = invocations (world_of no_source_fs))
   \<and> \<not> path_exists (fs (world_of no_charset_fs)) ''txt.txt''
   \<and> (\<exists>w'. batch_compress_fonts demo_env (world_of no_charset_fs) = Inr (False, zero_counters, w')
          \<and> invocations w' = invocations (world_of no_charset_fs))
   \<and> (\<exists>fs1. makedirs (fs (world_of no_fonts_fs)) ''targetFont'' = Inr fs1
          \<and> get_font_files fs1 ''sourceFont'' = [])
   \<and> (\<exists>w'. batch_compress_fonts demo_env (world_of no_fonts_fs) = Inr (False, zero_counters, w')
          \<and> invocations w' = invocations (world_of no_fonts_fs))"
proof -
  have a: "\<not> path_exists (fs (world_of no_source_fs)) ''sourceFont''"
    by (simp add: world_of_def no_source_fs_def path_exists_def)
  have b: "\<not> path_exists (fs (world_of no_charset_fs)) ''txt.txt''"
    by (simp add: world_of_def no_charset_fs_def path_exists_def)
  have c: "\<exists>fs1. makedirs (fs (world_of no_fonts_fs)) ''targetFont'' = Inr fs1
          \<and> get_font_files fs1 ''sourceFont'' = []"
    by (simp add: world_of_def no_fonts_fs_def makedirs_def get_font_files_def glob1_def
        scandir_def font_extensions_def ishidden_def upper_def upper_char_def)
  show ?thesis
    using a b c
      fatal_preconditions_abort [where w = "world_of no_source_fs" and e = demo_env]
      fatal_preconditions_abort [where w = "world_of no_charset_fs" and e = demo_env]
      fatal_preconditions_abort [where w = "world_of no_fonts_fs" and e = demo_env]
    by blast
qed

lemma batch_no_fonts:
  assumes "path_exists (fs w) ''sourceFont''" "path_exists (fs w) ''txt.txt''"
    and "get_font_files (fs w) ''sourceFont'' = []"
    and "makedirs (fs w) ''targetFont'' = Inr fs1"
  shows "batch_compress_fonts e w
          = Inr (False, zero_counters, emit (NoFontFiles ''sourceFont'') (w\<lparr>fs := fs1\<rparr>))"
proof -
  have "get_font_files fs1 ''sourceFont'' = []"
    using assms(3,4) by (simp add: get_font_files_makedirs)
  then show ?thesis
    using assms by (simp add: batch_compress_fonts_def)
qed

lemma makedirs_fresh:
  "makedirs fsys p = Inr fs1 \<Longrightarrow> fsys p = None \<Longrightarrow> fs1 = fsys(p \<mapsto> Dir 0 [])"
  by (simp add: makedirs_def)

text \<open>
  C10. With the source directory and the character-list file there and no font file to
  discover, the run makes the output directory before it gives up: the directory is
  there in the world the run leaves (new and empty when it was not there before). When
  the source directory or the character-list file is missing, the run leaves the file
  system as it found it. (If \<open>targetFont\<close> is a regular file, \<open>os.makedirs\<close> raises
  and the run ends with that exception before discovery.)
\<close>

theorem output_dir_made_after_checks:
  "(path_exists (fs w) ''sourceFont'' \<and> path_exists (fs w) ''txt.txt''
      \<and> get_font_files (fs w) ''sourceFont'' = []
      \<and> makedirs (fs w) ''targetFont'' = Inr fs1
    \<longrightarrow> batch_compress_fonts e w
          = Inr (False, zero_counters, emit (NoFontFiles ''sourceFont'') (w\<lparr>fs := fs1\<rparr>))
        \<and> path_exists fs1 ''targetFont''
        \<and> (fs w ''targetFont'' = None \<longrightarrow> fs1 = (fs w)(''targetFont'' \<mapsto> Dir 0 [])))
   \<and> (\<not> path_exists (fs w) ''sourceFont''
    \<longrightarrow> batch_compress_fonts e w
          = Inr (False, zero_counters, emit (SourceDirMissing ''sourceFont'') w))
   \<and> (path_exists (fs w) ''sourceFont'' \<and> \<not> path_exists (fs w) ''txt.txt''
    \<longrightarrow> batch_compress_fonts e w
          = Inr (False, zero_counters, emit (CharsetFileMissing ''txt.txt'') w))"
proof (intro conjI impI)
  assume h: "path_exists (fs w) ''sourceFont'' \<and> path_exists (fs w) ''txt.txt''
      \<and> get_font_files (fs w) ''sourceFont'' = []
      \<and> makedirs (fs w) ''targetFont'' = Inr fs1"
  then show "batch_compress_fonts e w
          = Inr (False, zero_counters, emit (NoFontFiles ''sourceFont'') (w\<lparr>fs := fs1\<rparr>))"
    by (simp add: batch_no_fonts)
  from h show "path_exists fs1 ''targetFont''"
    by (blast intro: path_exists_makedirs)
  assume "fs w ''targetFont'' = None"
  with h show "fs1 = (fs w)(''targetFont'' \<mapsto> Dir 0 [])"
    by (simp add: makedirs_fresh)
next
  assume "\<not> path_exists (fs w) ''sourceFont''"
  then show "batch_compress_fonts e w
          = Inr (False, zero_counters, emit (SourceDirMissing ''sourceFont'') w)"
    by (simp add: batch_compress_fonts_def)
next
  assume "path_exists (fs w) ''sourceFont'' \<and> \<not> path_exists (fs w) ''txt.txt''"
  then show "batch_compress_fonts e w
          = Inr (False, zero_counters, emit (CharsetFileMissing ''txt.txt'') w)"
    by (simp add: batch_compress_fonts_def)
qed

theorem output_dir_made_after_checks_witness:
  "path_exists (fs (world_of no_fonts_fs)) ''sourceFont''
   \<and> path_exists (fs (world_of no_fonts_fs)) ''txt.txt''
   \<and> get_font_files (fs (world_of no_fonts_fs)) ''sourceFont'' = []
   \<and> makedirs (fs (world_of no_fonts_fs)) ''targetFont''
       = Inr (no_fonts_fs(''targetFont'' \<mapsto> Dir 0 []))
   \<and> fs (world_of no_fonts_fs) ''targetFont'' = None
   \<and> batch_compress_fonts demo_env (world_of no_fonts_fs)
       = Inr (False, zero_counters, emit (NoFontFiles ''sourceFont'')
           ((world_of no_fonts_fs)\<lparr>fs := no_fonts_fs(''targetFont'' \<mapsto> Dir 0 [])\<rparr>))
   \<and> path_exists (no_fonts_fs(''targetFont'' \<mapsto> Dir 0 [])) ''targetFont''
   \<and> \<not> path_exists (fs (world_of no_source_fs)) ''sourceFont''
   \<and> batch_compress_fonts demo_env (world_of no_source_fs)
       = Inr (False, zero_counters, emit (SourceDirMissing ''sourceFont'') (world_of no_source_fs))
   \<and> fs (emit (SourceDirMissing ''sourceFont'') (world_of no_source_fs)) ''targetFont'' = None
   \<and> path_exists (fs (world_of no_charset_fs)) ''sourceFont''
   \<and> \<not> path_exists (fs (world_of no_charset_fs)) ''txt.txt''
   \<and> batch_compress_fonts demo_env (world_of no_charset_fs)
       = Inr (False, zero_counters, emit (CharsetFileMissing ''txt.txt'') (world_of no_charset_fs))
   \<and> fs (emit (CharsetFileMissing ''txt.txt'') (world_of no_charset_fs)) ''targetFont'' = None"
proof -
  have a: "path_exists (fs (world_of no_fonts_fs)) ''sourceFont''
      \<and> path_exists (fs (world_of no_fonts_fs)) ''txt.txt''
      \<and> fs (world_of no_fonts_fs) ''targetFont'' = None"
    by (simp add: world_of_def no_fonts_fs_def path_exists_def)
  have b: "get_font_files (fs (world_of no_fonts_fs)) ''sourceFont'' = []"
    by (simp add: world_of_def no_fonts_fs_def get_font_files_def glob1_def
        scandir_def font_extensions_def ishidden_def upper_def upper_char_def)
  have c: "makedirs (fs (world_of no_fonts_fs)) ''targetFont''
       = Inr (no_fonts_fs(''targetFont'' \<mapsto> Dir 0 []))"
    by (simp add: world_of_def no_fonts_fs_def makedirs_def)
  have d: "\<not> path_exists (fs (world_of no_source_fs)) ''sourceFont''
      \<and> fs (world_of no_source_fs) ''targetFont'' = None"
    by (simp add: world_of_def no_source_fs_def path_exists_def)
  have e: "path_exists (fs (world_of no_charset_fs)) ''sourceFont''
      \<and> \<not> path_exists (fs (world_of no_charset_fs)) ''txt.txt''
      \<and> fs (world_of no_charset_fs) ''targetFont'' = None"
    by (simp add: world_of_def no_charset_fs_def path_exists_def)
  have f: "fs (emit (SourceDirMissing ''sourceFont'') (world_of no_source_fs)) ''targetFont'' = None"
    using d by simp
  have g: "fs (emit (CharsetFileMissing ''txt.txt'') (world_of no_charset_fs)) ''targetFont'' = None"
    using e by simp
  show ?thesis
    using a b c d e f g
      output_dir_made_after_checks [where w = "world_of no_fonts_fs" and e = demo_env
        and ?fs1.0 = "no_fonts_fs(''targetFont'' \<mapsto> Dir 0 [])"]
      output_dir_made_after_checks [where w = "world_of no_source_fs" and e = demo_env]
      output_dir_made_after_checks [where w = "world_of no_charset_fs" and e = demo_env]
    by blast
qed

section \<open>One call of the invoker\<close>

lemma fst_handle_exn [simp]: "fst (handle_exn x w) = False"
  by (simp add: handle_exn_def)

lemma fs_handle_exn [simp]: "fs (snd (handle_exn x w)) = fs w"
  by (simp add: handle_exn_def)

lemma invocations_handle_exn [simp]: "invocations (snd (handle_exn x w)) = invocations w"
  by (simp add: handle_exn_def)

lemma fs_report_sizes [simp]: "fs (snd (report_sizes f out w)) = fs w"
  by (simp add: report_sizes_def split: sum.splits)

lemma invocations_report_sizes [simp]:
  "invocations (snd (report_sizes f out w)) = invocations w"
  by (simp add: report_sizes_def split: sum.splits)

lemma fst_report_sizes:
  "fst (report_sizes f out w) =
     (case (getsize (fs w) f, getsize (fs w) out) of
        (Inr a, Inr b) \<Rightarrow> a \<noteq> 0
      | _ \<Rightarrow> False)"
  by (simp add: report_sizes_def split: sum.splits)

lemma compress_precondition:
  "\<not> (path_exists (fs w) f \<and> path_exists (fs w) tf) \<Longrightarrow>
     fst (compress_single_font e w f tf od idx) = False
     \<and> fs (snd (compress_single_font e w f tf od idx)) = fs w
     \<and> invocations (snd (compress_single_font e w f tf od idx)) = invocations w"
  by (auto simp: compress_single_font_def)

lemma compress_invocations:
  "path_exists (fs w) f \<Longrightarrow> path_exists (fs w) tf \<Longrightarrow>
     invocations (snd (compress_single_font e w f tf od idx))
       = invocations w @ [build_cmd f tf (output_file_name f od idx) idx]"
  by (simp add: compress_single_font_def Let_def split: prod.splits proc_result.splits)

lemma compress_fs:
  "path_exists (fs w) f \<Longrightarrow> path_exists (fs w) tf \<Longrightarrow>
     fs (snd (compress_single_font e w f tf od idx))
       = snd (subprocess_run e (invocations w) (fs w)
                (build_cmd f tf (output_file_name f od idx) idx))"
  by (simp add: compress_single_font_def Let_def split: prod.splits proc_result.splits)

lemma compress_zero_exit:
  assumes "path_exists (fs w) f" "path_exists (fs w) tf"
    and "subprocess_run e (invocations w) (fs w)
           (build_cmd f tf (output_file_name f od idx) idx) = (Completed 0 err, fs')"
  shows "fst (compress_single_font e w f tf od idx) =
     (case (getsize fs' f, getsize fs' (output_file_name f od idx)) of
        (Inr a, Inr b) \<Rightarrow> a \<noteq> 0
      | _ \<Rightarrow> False)"
  using assms by (simp add: compress_single_font_def Let_def fst_report_sizes)

lemma compress_nonzero_exit:
  assumes "path_exists (fs w) f" "path_exists (fs w) tf"
    and "subprocess_run e (invocations w) (fs w)
           (build_cmd f tf (output_file_name f od idx) idx) = (Completed rc err, fs')"
    and "rc \<noteq> 0"
  shows "fst (compress_single_font e w f tf od idx) = False"
  using assms by (simp add: compress_single_font_def Let_def)

section \<open>The two branches for a collection file\<close>

lemma total_run_job:
  "total_fonts_processed (fst (run_job e tf od f idx s)) = total_fonts_processed (fst s) + 1"
  by (simp add: fst_run_job count_job_total)

lemma total_fan_out:
  "total_fonts_processed (fst (fan_out e tf od f k idxs s))
     = total_fonts_processed (fst s) + length idxs"
  by (induction idxs arbitrary: s) (simp_all add: total_run_job)

text \<open>The loop over a collection's fonts as a fold of its body.\<close>

lemma fan_out_foldl:
  "fan_out e tf od f k idxs s =
     foldl (\<lambda>s j. run_job e tf od f (Some j) (fst s, emit (ProcessingSubFont (j + 1) k) (snd s)))
       s idxs"
  by (induction idxs arbitrary: s) simp_all

lemma process_file_single:
  assumes "lower (path_suffix f) = ''.ttc''"
    and "get_font_count_in_collection e (fs (snd s)) f = Inr k" and "k \<le> 1"
  shows "process_file e tf od n i f s
           = Inr (run_job e tf od f None (fst s, emit (ProcessingFile i n) (snd s)))"
  using assms by (simp add: process_file_def Let_def)

lemma process_file_fan_out:
  assumes "lower (path_suffix f) = ''.ttc''"
    and "get_font_count_in_collection e (fs (snd s)) f = Inr k" and "1 < k"
  shows "process_file e tf od n i f s
           = Inr (fan_out e tf od f k (range_list k)
                   (fst s, emit (CollectionDetected k) (emit (ProcessingFile i n) (snd s))))"
  using assms by (simp add: process_file_def Let_def)

section \<open>Exit status 0 and the size report\<close>

text \<open>
  C5, as stated, fails: a tool that exits with 0 and leaves no output file makes
  \<open>os.path.getsize\<close> raise inside the \<open>try\<close>, and the call returns False.
\<close>

theorem zero_exit_not_always_success:
  "path_exists (fs demo_world) ''sourceFont/Serif.ttf''
   \<and> path_exists (fs demo_world) ''txt.txt''
   \<and> fst (subprocess_run silent_env (invocations demo_world) (fs demo_world)
        (build_cmd ''sourceFont/Serif.ttf'' ''txt.txt''
           (output_file_name ''sourceFont/Serif.ttf'' ''targetFont'' None) None))
       = Completed 0 []
   \<and> fst (compress_single_font silent_env demo_world ''sourceFont/Serif.ttf'' ''txt.txt''
             ''targetFont'' None) = False"
  by code_simp

text \<open>
  C5, amended. When both files are there and the tool exits with 0, the call returns
  True exactly when the size report goes through: the sizes of the source and of the
  output file can be read in the file system the tool leaves, and the source's size is
  not 0. Otherwise the exception of the report is caught and the call returns False.
\<close>

theorem zero_exit_success_iff_sizes:
  assumes "path_exists (fs w) font_file" and "path_exists (fs w) text_file"
    and "subprocess_run e (invocations w) (fs w)
           (build_cmd font_file text_file (output_file_name font_file output_dir font_index)
              font_index) = (Completed 0 err, fs')"
  shows "fst (compress_single_font e w font_file text_file output_dir font_index) =
     (case (getsize fs' font_file, getsize fs' (output_file_name font_file output_dir font_index)) of
        (Inr original_size, Inr compressed_size) \<Rightarrow> original_size \<noteq> 0
      | _ \<Rightarrow> False)"
  using assms by (rule compress_zero_exit)

theorem zero_exit_success_iff_sizes_witness:
  "path_exists (fs demo_world) ''sourceFont/Serif.ttf''
   \<and> path_exists (fs demo_world) ''txt.txt''
   \<and> subprocess_run demo_env (invocations demo_world) (fs demo_world)
        (build_cmd ''sourceFont/Serif.ttf'' ''txt.txt''
           (output_file_name ''sourceFont/Serif.ttf'' ''targetFont'' None) None)
       = (Completed 0 [], demo_fs(''targetFont/Serif-subset.ttf'' \<mapsto> File 1024))
   \<and> fst (compress_single_font demo_env demo_world ''sourceFont/Serif.ttf'' ''txt.txt''
             ''targetFont'' None)
       = (case (getsize (demo_fs(''targetFont/Serif-subset.ttf'' \<mapsto> File 1024))
                  ''sourceFont/Serif.ttf'',
                getsize (demo_fs(''targetFont/Serif-subset.ttf'' \<mapsto> File 1024))
                  (output_file_name ''sourceFont/Serif.ttf'' ''targetFont'' None)) of
            (Inr original_size, Inr compressed_size) \<Rightarrow> original_size \<noteq> 0
          | _ \<Rightarrow> False)"
proof -
  have a: "path_exists (fs demo_world) ''sourceFont/Serif.ttf''"
    by code_simp
  have b: "path_exists (fs demo_world) ''txt.txt''"
    by code_simp
  have c: "subprocess_run demo_env (invocations demo_world) (fs demo_world)
        (build_cmd ''sourceFont/Serif.ttf'' ''txt.txt''
           (output_file_name ''sourceFont/Serif.ttf'' ''targetFont'' None) None)
       = (Completed 0 [], demo_fs(''targetFont/Serif-subset.ttf'' \<mapsto> File 1024))"
    by (simp add: demo_env_def demo_world_def build_cmd_def output_file_name_def
        path_stem_def path_suffix_def path_name_def rfind_def lower_def lower_char_def
        os_path_join_def)
  show ?thesis
    using a b c zero_exit_success_iff_sizes [OF a b c]
    by blast
qed

section \<open>A collection whose count is not above 1\<close>

text \<open>
  C6, as stated, fails: for a \<open>.ttc\<close> file whose inspector reports 0 the run invokes
  the tool on the file as one ordinary font, without an index, and counts the job as
  a success when the tool succeeds.
\<close>

theorem indeterminate_collection_subset_as_single:
  "get_font_count_in_collection broken_env (fs (world_of collection_fs))
      ''sourceFont/Collection.ttc'' = Inr 0
   \<and> (case batch_compress_fonts broken_env (world_of collection_fs) of
        Inl x \<Rightarrow> False
      | Inr (b, c, w') \<Rightarrow>
          b \<and> c = \<lparr>successful_count = 1, failed_count = 0, total_fonts_processed = 1\<rparr>
          \<and> invocations w' =
              [[''fonttools'', ''subset'', ''sourceFont/Collection.ttc'',
                ''--text-file=txt.txt'', ''--output-file=targetFont/Collection-subset.ttf'']])"
  by code_simp

text \<open>
  C6, amended. A \<open>.ttc\<close> file whose inspector reports 0 (or 1) is not fanned out: the
  loop body is one job without an index, counted by the result of that one call. When
  the font file and the character-list file exist, that job adds exactly one
  invocation, the command without \<open>--font-number\<close> and with the output file
  \<open><stem>-subset.ttf\<close>; when one of them is missing it adds none. The loop then goes on
  with the remaining files.
\<close>

theorem indeterminate_collection_single_job:
  assumes "lower (path_suffix font_file) = ''.ttc''"
    and "get_font_count_in_collection e (fs (snd s)) font_file = Inr font_count"
    and "font_count \<le> 1"
  shows "process_file e text_file output_dir n i font_file s
           = Inr (run_job e text_file output_dir font_file None
                    (fst s, emit (ProcessingFile i n) (snd s)))
    \<and> fst (run_job e text_file output_dir font_file None
              (fst s, emit (ProcessingFile i n) (snd s)))
        = count_job (fst (compress_single_font e (emit (ProcessingFile i n) (snd s)) font_file
                            text_file output_dir None)) (fst s)
    \<and> (path_exists (fs (snd s)) font_file \<and> path_exists (fs (snd s)) text_file \<longrightarrow>
         invocations (snd (run_job e text_file output_dir font_file None
                             (fst s, emit (ProcessingFile i n) (snd s))))
           = invocations (snd s)
             @ [[''fonttools'', ''subset'', font_file, ''--text-file='' @ text_file,
                 ''--output-file=''
                   @ os_path_join output_dir (path_stem font_file @ ''-subset.ttf'')]])
    \<and> (\<not> (path_exists (fs (snd s)) font_file \<and> path_exists (fs (snd s)) text_file) \<longrightarrow>
         invocations (snd (run_job e text_file output_dir font_file None
                             (fst s, emit (ProcessingFile i n) (snd s))))
           = invocations (snd s))
    \<and> output_file_name font_file output_dir None
        = os_path_join output_dir (path_stem font_file @ ''-subset.ttf'')
    \<and> build_cmd font_file text_file (output_file_name font_file output_dir None) None
        = [''fonttools'', ''subset'', font_file, ''--text-file='' @ text_file,
           ''--output-file='' @ output_file_name font_file output_dir None]
    \<and> files_loop e text_file output_dir n i (font_file # rest) s
        = files_loop e text_file output_dir n (i + 1) rest
            (run_job e text_file output_dir font_file None
               (fst s, emit (ProcessingFile i n) (snd s)))"
proof -
  let ?w = "emit (ProcessingFile i n) (snd s)"
  have o: "output_file_name font_file output_dir None
        = os_path_join output_dir (path_stem font_file @ ''-subset.ttf'')"
    using assms(1) by (simp add: output_file_name_def)
  have c: "build_cmd font_file text_file (output_file_name font_file output_dir None) None
        = [''fonttools'', ''subset'', font_file, ''--text-file='' @ text_file,
           ''--output-file='' @ output_file_name font_file output_dir None]"
    by (simp add: build_cmd_def)
  have 1: "invocations (snd (run_job e text_file output_dir font_file None (fst s, ?w)))
           = invocations (snd s)
             @ [[''fonttools'', ''subset'', font_file, ''--text-file='' @ text_file,
                 ''--output-file=''
                   @ os_path_join output_dir (path_stem font_file @ ''-subset.ttf'')]]"
    if "path_exists (fs (snd s)) font_file \<and> path_exists (fs (snd s)) text_file"
  proof -
    have "invocations (snd (compress_single_font e ?w font_file text_file output_dir None))
        = invocations ?w
          @ [build_cmd font_file text_file (output_file_name font_file output_dir None) None]"
      using that by (intro compress_invocations) simp_all
    then show ?thesis
      by (simp add: snd_run_job o build_cmd_def)
  qed
  have 2: "invocations (snd (run_job e text_file output_dir font_file None (fst s, ?w)))
           = invocations (snd s)"
    if "\<not> (path_exists (fs (snd s)) font_file \<and> path_exists (fs (snd s)) text_file)"
    using that compress_precondition [of ?w font_file text_file e output_dir None]
    by (simp add: snd_run_job)
  have 3: "process_file e text_file output_dir n i font_file s
           = Inr (run_job e text_file output_dir font_file None (fst s, ?w))"
    using assms by (rule process_file_single)
  have 4: "fst (run_job e text_file output_dir font_file None (fst s, ?w))
        = count_job (fst (compress_single_font e ?w font_file text_file output_dir None)) (fst s)"
    by (simp add: fst_run_job)
  have 5: "files_loop e text_file output_dir n i (font_file # rest) s
        = files_loop e text_file output_dir n (i + 1) rest
            (run_job e text_file output_dir font_file None (fst s, ?w))"
    by (simp add: 3)
  show ?thesis
    using 1 2 3 4 5 o c by blast
qed

theorem indeterminate_collection_single_job_witness:
  "lower (path_suffix ''sourceFont/Collection.ttc'') = ''.ttc''
   \<and> get_font_count_in_collection broken_env (fs (snd (zero_counters, world_of collection_fs)))
        ''sourceFont/Collection.ttc'' = Inr 0
   \<and> (0::int) \<le> 1
   \<and> path_exists (fs (snd (zero_counters, world_of collection_fs))) ''sourceFont/Collection.ttc''
   \<and> path_exists (fs (snd (zero_counters, world_of collection_fs))) ''txt.txt''
   \<and> process_file broken_env ''txt.txt'' ''targetFont'' 1 1 ''sourceFont/Collection.ttc''
        (zero_counters, world_of collection_fs)
       = Inr (run_job broken_env ''txt.txt'' ''targetFont'' ''sourceFont/Collection.ttc'' None
               (fst (zero_counters, world_of collection_fs),
                emit (ProcessingFile 1 1) (snd (zero_counters, world_of collection_fs))))
   \<and> invocations (snd (run_job broken_env ''txt.txt'' ''targetFont''
         ''sourceFont/Collection.ttc'' None
         (fst (zero_counters, world_of collection_fs),
          emit (ProcessingFile 1 1) (snd (zero_counters, world_of collection_fs)))))
       = invocations (snd (zero_counters, world_of collection_fs))
         @ [[''fonttools'', ''subset'', ''sourceFont/Collection.ttc'',
             ''--text-file='' @ ''txt.txt'',
             ''--output-file=''
               @ os_path_join ''targetFont''
                   (path_stem ''sourceFont/Collection.ttc'' @ ''-subset.ttf'')]]"
proof -
  have a: "lower (path_suffix ''sourceFont/Collection.ttc'') = ''.ttc''"
    by code_simp
  have b: "get_font_count_in_collection broken_env
        (fs (snd (zero_counters, world_of collection_fs))) ''sourceFont/Collection.ttc'' = Inr 0"
    by code_simp
  have c: "(0::int) \<le> 1"
    by simp
  have d: "path_exists (fs (snd (zero_counters, world_of collection_fs)))
        ''sourceFont/Collection.ttc''"
    "path_exists (fs (snd (zero_counters, world_of collection_fs))) ''txt.txt''"
    by code_simp+
  show ?thesis
    using a b c d
      indeterminate_collection_single_job [OF a b c, where text_file = "''txt.txt''"
        and output_dir = "''targetFont''" and n = 1 and i = 1]
    by blast
qed

section \<open>A tool that is not installed\<close>

lemma compress_absent:
  assumes "\<And>h fsys cmd. subprocess_run e h fsys cmd = (RunRaised FileNotFoundError, fsys)"
  shows "fst (compress_single_font e w f tf od idx) = False"
    and "fs (snd (compress_single_font e w f tf od idx)) = fs w"
  using assms by (simp_all add: compress_single_font_def Let_def)

lemma compress_absent_console:
  assumes "\<And>h fsys cmd. subprocess_run e h fsys cmd = (RunRaised FileNotFoundError, fsys)"
    and "path_exists (fs w) f" and "path_exists (fs w) tf"
  shows "console (snd (compress_single_font e w f tf od idx))
           = console w @ [Compressing (os_path_basename f) idx,
                          CommandLine (build_cmd f tf (output_file_name f od idx) idx),
                          ToolNotFound]"
  using assms by (simp add: compress_single_font_def Let_def handle_exn_def)

lemma run_job_absent:
  assumes "\<And>h fsys cmd. subprocess_run e h fsys cmd = (RunRaised FileNotFoundError, fsys)"
  shows "fs (snd (run_job e tf od f idx s)) = fs (snd s)"
    and "successful_count (fst (run_job e tf od f idx s)) = successful_count (fst s)"
  using compress_absent [OF assms]
  by (simp_all add: snd_run_job fst_run_job count_job_def)

lemma run_job_invocations:
  assumes "path_exists (fs (snd s)) f" and "path_exists (fs (snd s)) tf"
  shows "invocations (snd (run_job e tf od f idx s))
           = invocations (snd s) @ [build_cmd f tf (output_file_name f od idx) idx]"
  using assms by (simp add: snd_run_job compress_invocations)

lemma fan_out_absent:
  assumes "\<And>h fsys cmd. subprocess_run e h fsys cmd = (RunRaised FileNotFoundError, fsys)"
  shows "fs (snd (fan_out e tf od f k idxs s)) = fs (snd s)
       \<and> successful_count (fst (fan_out e tf od f k idxs s)) = successful_count (fst s)"
  by (induction idxs arbitrary: s) (simp_all add: run_job_absent [OF assms])

lemma fan_out_absent_invocations:
  assumes "\<And>h fsys cmd. subprocess_run e h fsys cmd = (RunRaised FileNotFoundError, fsys)"
    and "path_exists (fs (snd s)) f" and "path_exists (fs (snd s)) tf"
  shows "length (invocations (snd (fan_out e tf od f k idxs s)))
           = length (invocations (snd s)) + length idxs"
  using assms(2,3)
proof (induction idxs arbitrary: s)
  case Nil
  then show ?case by simp
next
  case (Cons j idxs)
  let ?s1 = "run_job e tf od f (Some j) (fst s, emit (ProcessingSubFont (j + 1) k) (snd s))"
  have "fs (snd ?s1) = fs (snd s)"
    by (simp add: run_job_absent [OF assms(1)])
  then have "length (invocations (snd (fan_out e tf od f k idxs ?s1)))
           = length (invocations (snd ?s1)) + length idxs"
    using Cons by simp
  moreover have "length (invocations (snd ?s1)) = length (invocations (snd s)) + 1"
    using Cons.prems by (simp add: run_job_invocations)
  ultimately show ?case by simp
qed

lemma length_range_list: "length (range_list k) = nat k"
  by (simp add: range_list_def)

lemma process_file_absent:
  assumes "\<And>h fsys cmd. subprocess_run e h fsys cmd = (RunRaised FileNotFoundError, fsys)"
    and "process_file e tf od n i f s = Inr s'"
  shows "fs (snd s') = fs (snd s)
       \<and> successful_count (fst s') = successful_count (fst s)
       \<and> total_fonts_processed (fst s) + 1 \<le> total_fonts_processed (fst s')"
  using assms(2)
  by (auto simp: process_file_def Let_def run_job_absent [OF assms(1)] fan_out_absent [OF assms(1)]
      total_run_job total_fan_out length_range_list split: if_splits sum.splits)

lemma process_file_absent_invocations:
  assumes "\<And>h fsys cmd. subprocess_run e h fsys cmd = (RunRaised FileNotFoundError, fsys)"
    and "process_file e tf od n i f s = Inr s'"
    and "path_exists (fs (snd s)) f" and "path_exists (fs (snd s)) tf"
  shows "length (invocations (snd s')) + total_fonts_processed (fst s)
           = length (invocations (snd s)) + total_fonts_processed (fst s')"
  using assms(2,3,4)
  by (auto simp: process_file_def Let_def run_job_invocations
      fan_out_absent_invocations [OF assms(1)]
      total_run_job total_fan_out length_range_list split: if_splits sum.splits)

lemma files_loop_absent:
  assumes "\<And>h fsys cmd. subprocess_run e h fsys cmd = (RunRaised FileNotFoundError, fsys)"
    and "files_loop e tf od n i files s = Inr s'"
  shows "fs (snd s') = fs (snd s)
       \<and> successful_count (fst s') = successful_count (fst s)
       \<and> total_fonts_processed (fst s) + length files \<le> total_fonts_processed (fst s')"
  using assms(2)
proof (induction files arbitrary: s i)
  case Nil
  then show ?case by simp
next
  case (Cons f files)
  from Cons.prems obtain s1 where
    1: "process_file e tf od n i f s = Inr s1" and
    2: "files_loop e tf od n (i + 1) files s1 = Inr s'"
    by (auto split: sum.splits)
  show ?case
    using process_file_absent [OF assms(1) 1] Cons.IH [OF 2] by simp
qed

lemma files_loop_absent_invocations:
  assumes "\<And>h fsys cmd. subprocess_run e h fsys cmd = (RunRaised FileNotFoundError, fsys)"
    and "files_loop e tf od n i files s = Inr s'"
    and "\<forall>f \<in> set files. path_exists (fs (snd s)) f" and "path_exists (fs (snd s)) tf"
  shows "length (invocations (snd s')) + total_fonts_processed (fst s)
           = length (invocations (snd s)) + total_fonts_processed (fst s')"
  using assms(2,3,4)
proof (induction files arbitrary: s i)
  case Nil
  then show ?case by simp
next
  case (Cons f files)
  from Cons.prems(1) obtain s1 where
    1: "process_file e tf od n i f s = Inr s1" and
    2: "files_loop e tf od n (i + 1) files s1 = Inr s'"
    by (auto split: sum.splits)
  have 3: "fs (snd s1) = fs (snd s)"
    using process_file_absent [OF assms(1) 1] by simp
  have 4: "length (invocations (snd s1)) + total_fonts_processed (fst s)
           = length (invocations (snd s)) + total_fonts_processed (fst s1)"
    using process_file_absent_invocations [OF assms(1) 1] Cons.prems by simp
  have 5: "length (invocations (snd s')) + total_fonts_processed (fst s1)
           = length (invocations (snd s1)) + total_fonts_processed (fst s')"
    using Cons.IH [OF 2] Cons.prems 3 by simp
  show ?case
    using 4 5 by linarith
qed

lemma path_exists_makedirs_mono:
  "makedirs fsys p = Inr fs1 \<Longrightarrow> path_exists fsys q \<Longrightarrow> path_exists fs1 q"
  by (auto simp: makedirs_def path_exists_def split: option.splits node.splits)

text \<open>The run from the loop on, once the three checks have passed.\<close>

lemma batch_loop:
  assumes "batch_compress_fonts e w = Inr (b, c, w')"
    and "path_exists (fs w) ''sourceFont''" and "path_exists (fs w) ''txt.txt''"
    and "get_font_files (fs w) ''sourceFont'' \<noteq> []"
  shows "\<exists>fs1 w2. makedirs (fs w) ''targetFont'' = Inr fs1
      \<and> files_loop e ''txt.txt'' ''targetFont'' (length (get_font_files (fs w) ''sourceFont'')) 1
           (get_font_files (fs w) ''sourceFont'')
           (zero_counters,
            emit (FoundFonts (map os_path_basename (get_font_files (fs w) ''sourceFont'')))
              (w\<lparr>fs := fs1\<rparr>)) = Inr (c, w2)
      \<and> b = (successful_count c > 0)
      \<and> w' = emit (Summary (length (get_font_files (fs w) ''sourceFont''))
                 (total_fonts_processed c) (successful_count c) (failed_count c) ''targetFont'') w2"
proof -
  obtain fs1 where m: "makedirs (fs w) ''targetFont'' = Inr fs1"
    using assms(1,2,3)
    by (cases "makedirs (fs w) ''targetFont''") (auto simp: batch_compress_fonts_def Let_def)
  have g: "get_font_files fs1 ''sourceFont'' = get_font_files (fs w) ''sourceFont''"
    using m by (simp add: get_font_files_makedirs)
  show ?thesis
    using assms m g
    by (auto simp: batch_compress_fonts_def Let_def split: sum.splits prod.splits)
qed

lemma batch_not_loop:
  assumes "batch_compress_fonts e w = Inr (b, c, w')"
    and "\<not> (path_exists (fs w) ''sourceFont'' \<and> path_exists (fs w) ''txt.txt''
            \<and> get_font_files (fs w) ''sourceFont'' \<noteq> [])"
  shows "\<not> b \<and> c = zero_counters \<and> invocations w' = invocations w"
proof -
  have "makedirs (fs w) ''targetFont'' = Inr fs1 \<Longrightarrow>
      get_font_files fs1 ''sourceFont'' = get_font_files (fs w) ''sourceFont''" for fs1
    by (simp add: get_font_files_makedirs)
  then show ?thesis
    using assms
    by (auto simp: batch_compress_fonts_def Let_def split: sum.splits prod.splits if_splits)
qed

lemma batch_absent:
  assumes "\<And>h fsys cmd. subprocess_run e h fsys cmd = (RunRaised FileNotFoundError, fsys)"
    and "batch_compress_fonts e w = Inr (b, c, w')"
  shows "\<not> b \<and> successful_count c = 0
       \<and> (path_exists (fs w) ''txt.txt'' \<longrightarrow>
            length (get_font_files (fs w) ''sourceFont'') \<le> total_fonts_processed c)
       \<and> (path_exists (fs w) ''txt.txt''
            \<and> (\<forall>f \<in> set (get_font_files (fs w) ''sourceFont''). path_exists (fs w) f) \<longrightarrow>
          length (invocations w') = length (invocations w) + total_fonts_processed c)"
proof (cases "path_exists (fs w) ''sourceFont'' \<and> path_exists (fs w) ''txt.txt''
            \<and> get_font_files (fs w) ''sourceFont'' \<noteq> []")
  case False
  have "\<not> path_exists (fs w) ''sourceFont'' \<Longrightarrow> get_font_files (fs w) ''sourceFont'' = []"
    by (auto simp: get_font_files_def glob1_def scandir_def path_exists_def font_extensions_def)
  then show ?thesis
    using batch_not_loop [OF assms(2) False] False
    by (auto simp: zero_counters_def)
next
  case True
  let ?files = "get_font_files (fs w) ''sourceFont''"
  from batch_loop [OF assms(2)] True obtain fs1 w2 where
    m: "makedirs (fs w) ''targetFont'' = Inr fs1" and
    l: "files_loop e ''txt.txt'' ''targetFont'' (length ?files) 1 ?files
           (zero_counters, emit (FoundFonts (map os_path_basename ?files)) (w\<lparr>fs := fs1\<rparr>))
         = Inr (c, w2)" and
    b: "b = (successful_count c > 0)" and
    w': "w' = emit (Summary (length ?files) (total_fonts_processed c) (successful_count c)
                 (failed_count c) ''targetFont'') w2"
    by blast
  note a = files_loop_absent [OF assms(1) l]
  have 1: "successful_count c = 0" "length ?files \<le> total_fonts_processed c"
    using a by (simp_all add: zero_counters_def)
  have 2: "length (invocations w') = length (invocations w) + total_fonts_processed c"
    if "\<forall>f \<in> set ?files. path_exists (fs w) f"
  proof -
    have "\<forall>f \<in> set ?files. path_exists fs1 f" and "path_exists fs1 ''txt.txt''"
      using that True m by (auto intro: path_exists_makedirs_mono)
    then show ?thesis
      using files_loop_absent_invocations [OF assms(1) l] w'
      by (simp add: zero_counters_def)
  qed
  show ?thesis
    using 1 2 b by simp
qed

text \<open>
  C4, as stated, fails: with the tool absent and two font files, the run attempts both
  invocations, prints the tool-not-found message twice and counts two failures.
\<close>

theorem absent_tool_jobs_still_attempted:
  "(case batch_compress_fonts absent_env (world_of two_fonts_fs) of
      Inl x \<Rightarrow> False
    | Inr (b, c, w') \<Rightarrow>
        c = \<lparr>successful_count = 0, failed_count = 2, total_fonts_processed = 2\<rparr>
        \<and> invocations w' =
            [[''fonttools'', ''subset'', ''sourceFont/Serif.ttf'', ''--text-file=txt.txt'',
              ''--output-file=targetFont/Serif-subset.ttf''],
             [''fonttools'', ''subset'', ''sourceFont/Sans.otf'', ''--text-file=txt.txt'',
              ''--output-file=targetFont/Sans-subset.otf'']]
        \<and> filter (\<lambda>l. l = ToolNotFound) (console w') = [ToolNotFound, ToolNotFound])"
  by code_simp

text \<open>When the import works, the loop over the files never raises.\<close>

lemma inspector_returns:
  "fonttools_importable e \<Longrightarrow> \<exists>k. get_font_count_in_collection e fsys f = Inr k"
  by (simp add: get_font_count_in_collection_def split: open_result.splits option.splits)

lemma process_file_returns:
  assumes "fonttools_importable e"
  shows "\<exists>s'. process_file e tf od n i f s = Inr s'"
proof -
  obtain k where "get_font_count_in_collection e (fs (emit (ProcessingFile i n) (snd s))) f = Inr k"
    using inspector_returns [OF assms] by blast
  then show ?thesis
    by (simp add: process_file_def Let_def)
qed

lemma files_loop_returns:
  assumes "fonttools_importable e"
  shows "\<exists>s'. files_loop e tf od n i files s = Inr s'"
proof (induction files arbitrary: s i)
  case Nil
  show ?case by simp
next
  case (Cons f files)
  obtain s1 where "process_file e tf od n i f s = Inr s1"
    using process_file_returns [OF assms] by blast
  then show ?case
    using Cons [of "i + 1" s1] by simp
qed

lemma batch_returns:
  assumes "fonttools_importable e" and "makedirs (fs w) ''targetFont'' = Inr fs1"
  shows "\<exists>b c w'. batch_compress_fonts e w = Inr (b, c, w')"
proof -
  let ?files = "get_font_files fs1 ''sourceFont''"
  obtain s' where "files_loop e ''txt.txt'' ''targetFont'' (length ?files) 1 ?files
      (zero_counters, emit (FoundFonts (map os_path_basename ?files)) (w\<lparr>fs := fs1\<rparr>)) = Inr s'"
    using files_loop_returns [OF assms(1)] by blast
  then show ?thesis
    using assms(2) by (cases s') (auto simp: batch_compress_fonts_def Let_def)
qed

text \<open>
  C4, amended. With the tool absent, every call of the invoker returns False, and a
  call whose two files exist attempts the invocation and prints the tool-not-found
  message. The run does not stop there. When the library import works and
  \<open>os.makedirs\<close> returns (the two steps of the run that can raise), the run returns
  False with no success and every job a failure; it processes at least one job per
  discovered file, and when the discovered files exist it attempts one invocation per
  job.
\<close>

theorem absent_tool_batch_goes_on:
  assumes "\<And>h fsys cmd. subprocess_run e h fsys cmd = (RunRaised FileNotFoundError, fsys)"
    and "fonttools_importable e"
    and "makedirs (fs w) ''targetFont'' = Inr fs1"
  shows "fst (compress_single_font e w0 f tf od idx) = False
    \<and> (path_exists (fs w0) f \<and> path_exists (fs w0) tf \<longrightarrow>
         console (snd (compress_single_font e w0 f tf od idx))
           = console w0 @ [Compressing (os_path_basename f) idx,
                           CommandLine (build_cmd f tf (output_file_name f od idx) idx),
                           ToolNotFound]
         \<and> invocations (snd (compress_single_font e w0 f tf od idx))
           = invocations w0 @ [build_cmd f tf (output_file_name f od idx) idx])
    \<and> (\<exists>c w'. batch_compress_fonts e w = Inr (False, c, w')
          \<and> successful_count c = 0 \<and> failed_count c = total_fonts_processed c
          \<and> (path_exists (fs w) ''txt.txt'' \<longrightarrow>
               length (get_font_files (fs w) ''sourceFont'') \<le> total_fonts_processed c)
          \<and> (path_exists (fs w) ''txt.txt''
               \<and> (\<forall>f \<in> set (get_font_files (fs w) ''sourceFont''). path_exists (fs w) f) \<longrightarrow>
             length (invocations w') = length (invocations w) + total_fonts_processed c))"
proof -
  have 1: "fst (compress_single_font e w0 f tf od idx) = False"
    by (rule compress_absent(1) [OF assms(1)])
  have 2: "path_exists (fs w0) f \<and> path_exists (fs w0) tf \<longrightarrow>
         console (snd (compress_single_font e w0 f tf od idx))
           = console w0 @ [Compressing (os_path_basename f) idx,
                           CommandLine (build_cmd f tf (output_file_name f od idx) idx),
                           ToolNotFound]
         \<and> invocations (snd (compress_single_font e w0 f tf od idx))
           = invocations w0 @ [build_cmd f tf (output_file_name f od idx) idx]"
    by (simp add: compress_absent_console [OF assms(1)] compress_invocations)
  obtain b c w' where r: "batch_compress_fonts e w = Inr (b, c, w')"
    using batch_returns [OF assms(2,3)] by blast
  note a = batch_absent [OF assms(1) r]
  have b: "b = False"
    using a by simp
  have t: "failed_count c = total_fonts_processed c"
    using batch_tallied [OF r] a by (simp add: tallied_def)
  have 3: "\<exists>c w'. batch_compress_fonts e w = Inr (False, c, w')
          \<and> successful_count c = 0 \<and> failed_count c = total_fonts_processed c
          \<and> (path_exists (fs w) ''txt.txt'' \<longrightarrow>
               length (get_font_files (fs w) ''sourceFont'') \<le> total_fonts_processed c)
          \<and> (path_exists (fs w) ''txt.txt''
               \<and> (\<forall>f \<in> set (get_font_files (fs w) ''sourceFont''). path_exists (fs w) f) \<longrightarrow>
             length (invocations w') = length (invocations w) + total_fonts_processed c)"
    using r a t unfolding b by blast
  show ?thesis
    using 1 2 3 by blast
qed

theorem absent_tool_batch_goes_on_witness:
  "(\<forall>h fsys cmd. subprocess_run absent_env h fsys cmd = (RunRaised FileNotFoundError, fsys))
   \<and> fonttools_importable absent_env
   \<and> makedirs (fs (world_of two_fonts_fs)) ''targetFont''
       = Inr (two_fonts_fs(''targetFont'' \<mapsto> Dir 0 []))
   \<and> fst (compress_single_font absent_env (world_of two_fonts_fs) ''sourceFont/Serif.ttf''
            ''txt.txt'' ''targetFont'' None) = False
   \<and> path_exists (fs (world_of two_fonts_fs)) ''sourceFont/Serif.ttf''
   \<and> path_exists (fs (world_of two_fonts_fs)) ''sourceFont/Sans.otf''
   \<and> path_exists (fs (world_of two_fonts_fs)) ''txt.txt''
   \<and> get_font_files (fs (world_of two_fonts_fs)) ''sourceFont''
       = [''sourceFont/Serif.ttf'', ''sourceFont/Sans.otf'']
   \<and> console (snd (compress_single_font absent_env (world_of two_fonts_fs)
         ''sourceFont/Serif.ttf'' ''txt.txt'' ''targetFont'' None))
       = console (world_of two_fonts_fs) @
           [Compressing (os_path_basename ''sourceFont/Serif.ttf'') None,
            CommandLine (build_cmd ''sourceFont/Serif.ttf'' ''txt.txt''
              (output_file_name ''sourceFont/Serif.ttf'' ''targetFont'' None) None),
            ToolNotFound]
   \<and> (\<exists>c w'. batch_compress_fonts absent_env (world_of two_fonts_fs) = Inr (False, c, w')
          \<and> successful_count c = 0 \<and> failed_count c = total_fonts_processed c
          \<and> 2 \<le> total_fonts_processed c
          \<and> length (invocations w')
              = length (invocations (world_of two_fonts_fs)) + total_fonts_processed c)"
proof -
  have a: "subprocess_run absent_env h fsys cmd = (RunRaised FileNotFoundError, fsys)"
    for h fsys cmd
    by (simp add: absent_env_def)
  have i: "fonttools_importable absent_env"
    by (simp add: absent_env_def demo_env_def)
  have m: "makedirs (fs (world_of two_fonts_fs)) ''targetFont''
       = Inr (two_fonts_fs(''targetFont'' \<mapsto> Dir 0 []))"
    by (simp add: world_of_def two_fonts_fs_def makedirs_def)
  have b: "path_exists (fs (world_of two_fonts_fs)) ''sourceFont/Serif.ttf''"
    by code_simp
  have b': "path_exists (fs (world_of two_fonts_fs)) ''sourceFont/Sans.otf''"
    by code_simp
  have c: "path_exists (fs (world_of two_fonts_fs)) ''txt.txt''"
    by code_simp
  have d: "get_font_files (fs (world_of two_fonts_fs)) ''sourceFont''
       = [''sourceFont/Serif.ttf'', ''sourceFont/Sans.otf'']"
    by code_simp
  note t = absent_tool_batch_goes_on [OF a i m, where ?w0.0 = "world_of two_fonts_fs"
        and f = "''sourceFont/Serif.ttf''" and tf = "''txt.txt''" and od = "''targetFont''"
        and idx = None]
  have 1: "fst (compress_single_font absent_env (world_of two_fonts_fs) ''sourceFont/Serif.ttf''
            ''txt.txt'' ''targetFont'' None) = False"
    using t by blast
  have 2: "console (snd (compress_single_font absent_env (world_of two_fonts_fs)
         ''sourceFont/Serif.ttf'' ''txt.txt'' ''targetFont'' None))
       = console (world_of two_fonts_fs) @
           [Compressing (os_path_basename ''sourceFont/Serif.ttf'') None,
            CommandLine (build_cmd ''sourceFont/Serif.ttf'' ''txt.txt''
              (output_file_name ''sourceFont/Serif.ttf'' ''targetFont'' None) None),
            ToolNotFound]"
    using t b c by blast
  have e: "\<forall>f \<in> set (get_font_files (fs (world_of two_fonts_fs)) ''sourceFont'').
      path_exists (fs (world_of two_fonts_fs)) f"
    using b b' by (simp add: d)
  have l: "length (get_font_files (fs (world_of two_fonts_fs)) ''sourceFont'') = 2"
    by (simp add: d)
  have 3: "\<exists>c w'. batch_compress_fonts absent_env (world_of two_fonts_fs) = Inr (False, c, w')
          \<and> successful_count c = 0 \<and> failed_count c = total_fonts_processed c
          \<and> 2 \<le> total_fonts_processed c
          \<and> length (invocations w')
              = length (invocations (world_of two_fonts_fs)) + total_fonts_processed c"
    using t [THEN conjunct2, THEN conjunct2] c e unfolding l by blast
  show ?thesis
    using a i m b b' c d 1 2 3 by blast
qed

section \<open>Decimal numerals and output names\<close>

lemma digit_val_digit_char: "d < 10 \<Longrightarrow> digit_val (digit_char d) = d"
  by (simp add: digit_val_def digit_char_def)

lemma is_digit_digit_char: "d < 10 \<Longrightarrow> is_digit (digit_char d)"
  by (simp add: is_digit_def digit_char_def)

lemma str_nat_digits: "\<forall>c \<in> set (str_nat n). is_digit c"
proof (induction n rule: str_nat.induct)
  case (1 n)
  show ?case
  proof (cases "n < 10")
    case True
    then show ?thesis
      by (simp add: str_nat.simps [of n] is_digit_digit_char)
  next
    case False
    then show ?thesis
      using 1 by (simp add: str_nat.simps [of n] is_digit_digit_char)
  qed
qed

lemma str_nat_not_Nil: "str_nat n \<noteq> []"
  by (simp add: str_nat.simps [of n])

lemma foldl_str_nat: "foldl (\<lambda>a c. 10 * a + digit_val c) 0 (str_nat n) = n"
proof (induction n rule: str_nat.induct)
  case (1 n)
  show ?case
  proof (cases "n < 10")
    case True
    then show ?thesis
      by (simp add: str_nat.simps [of n] digit_val_digit_char)
  next
    case False
    then show ?thesis
      using 1 by (simp add: str_nat.simps [of n] digit_val_digit_char)
  qed
qed

lemma int_of_digits_str_nat: "int_of_digits (str_nat n) = int n"
  by (simp add: int_of_digits_def foldl_str_nat)

lemma str_nat_inj:
  assumes "str_nat m = str_nat n"
  shows "m = n"
proof -
  have "m = foldl (\<lambda>a c. 10 * a + digit_val c) 0 (str_nat m)"
    by (simp only: foldl_str_nat)
  also have "\<dots> = foldl (\<lambda>a c. 10 * a + digit_val c) 0 (str_nat n)"
    by (simp only: assms)
  also have "\<dots> = n"
    by (simp only: foldl_str_nat)
  finally show ?thesis .
qed

lemma minus_not_digit: "\<not> is_digit CHR ''-''"
  by (simp add: is_digit_def)

lemma str_nat_no_minus: "str_nat n \<noteq> CHR ''-'' # cs"
proof
  assume "str_nat n = CHR ''-'' # cs"
  then have "CHR ''-'' \<in> set (str_nat n)"
    by simp
  then show False
    using str_nat_digits minus_not_digit by blast
qed

lemma str_int_inj:
  assumes "str_int i = str_int j"
  shows "i = j"
proof (cases "i < 0")
  case True
  show ?thesis
  proof (cases "j < 0")
    case True
    with \<open>i < 0\<close> assms have "str_nat (nat (- i)) = str_nat (nat (- j))"
      by (simp add: str_int_def)
    then have "nat (- i) = nat (- j)"
      by (rule str_nat_inj)
    with True \<open>i < 0\<close> show ?thesis
      by linarith
  next
    case False
    with \<open>i < 0\<close> assms have "str_nat (nat j) = CHR ''-'' # str_nat (nat (- i))"
      by (simp add: str_int_def)
    then show ?thesis
      by (simp only: str_nat_no_minus)
  qed
next
  case False
  show ?thesis
  proof (cases "j < 0")
    case True
    with \<open>\<not> i < 0\<close> assms have "str_nat (nat i) = CHR ''-'' # str_nat (nat (- j))"
      by (simp add: str_int_def)
    then show ?thesis
      by (simp only: str_nat_no_minus)
  next
    case False
    with \<open>\<not> i < 0\<close> assms have "str_nat (nat i) = str_nat (nat j)"
      by (simp add: str_int_def)
    then have "nat i = nat j"
      by (rule str_nat_inj)
    with False \<open>\<not> i < 0\<close> show ?thesis
      by linarith
  qed
qed

lemma os_path_join_inj:
  "p \<noteq> [] \<Longrightarrow> os_path_join d (p @ a) = os_path_join d (p @ b) \<Longrightarrow> a = b"
  by (auto simp: os_path_join_def split: if_splits)

lemma output_file_name_index:
  "output_file_name f od (Some i)
     = os_path_join od (path_stem f @ ''-'' @ str_int i @ ''-subset.ttf'')"
  by (simp add: output_file_name_def)

lemma output_file_name_inj:
  assumes "output_file_name f od (Some i) = output_file_name f od (Some j)"
  shows "i = j"
proof -
  have "os_path_join od ((path_stem f @ ''-'') @ (str_int i @ ''-subset.ttf''))
      = os_path_join od ((path_stem f @ ''-'') @ (str_int j @ ''-subset.ttf''))"
    using assms by (simp add: output_file_name_index)
  then have "str_int i @ ''-subset.ttf'' = str_int j @ ''-subset.ttf''"
    by (rule os_path_join_inj [rotated]) simp
  then show ?thesis
    by (simp add: str_int_inj)
qed

lemma distinct_range_list: "distinct (range_list k)"
  by (simp add: range_list_def distinct_map inj_on_def)

lemma distinct_output_names:
  "distinct (map (\<lambda>j. output_file_name f od (Some j)) (range_list k))"
  by (auto simp: distinct_map distinct_range_list inj_on_def dest: output_file_name_inj)

text \<open>The invocations of a fan-out when the tool leaves the two input files in place.\<close>

lemma fan_out_invocations:
  assumes "\<And>h fsys cmd. path_exists fsys f \<Longrightarrow> path_exists (snd (subprocess_run e h fsys cmd)) f"
    and "\<And>h fsys cmd. path_exists fsys tf \<Longrightarrow> path_exists (snd (subprocess_run e h fsys cmd)) tf"
    and "path_exists (fs (snd s)) f" and "path_exists (fs (snd s)) tf"
  shows "invocations (snd (fan_out e tf od f k idxs s))
           = invocations (snd s)
             @ map (\<lambda>j. build_cmd f tf (output_file_name f od (Some j)) (Some j)) idxs
       \<and> path_exists (fs (snd (fan_out e tf od f k idxs s))) f
       \<and> path_exists (fs (snd (fan_out e tf od f k idxs s))) tf"
  using assms(3,4)
proof (induction idxs arbitrary: s)
  case Nil
  then show ?case by simp
next
  case (Cons j idxs)
  let ?s0 = "(fst s, emit (ProcessingSubFont (j + 1) k) (snd s))"
  let ?s1 = "run_job e tf od f (Some j) ?s0"
  have e: "path_exists (fs (snd ?s0)) f" "path_exists (fs (snd ?s0)) tf"
    using Cons.prems by simp_all
  have 1: "invocations (snd ?s1)
      = invocations (snd s) @ [build_cmd f tf (output_file_name f od (Some j)) (Some j)]"
    using run_job_invocations [OF e] by simp
  have 2: "path_exists (fs (snd ?s1)) f" "path_exists (fs (snd ?s1)) tf"
    using e assms(1,2) by (simp_all add: snd_run_job compress_fs)
  show ?case
    using Cons.IH [OF 2] 1 by simp
qed

section \<open>Fan-out of a collection\<close>

text \<open>
  C1. For a \<open>.ttc\<close> file whose inspector reports a count \<open>K > 1\<close>, the loop body runs
  the job step once for each index \<open>0, ..., K - 1\<close>, in that order and with that index,
  so the total goes up by \<open>K\<close>; when the tool leaves the font file and the
  character-list file in place, the invocations added are the \<open>K\<close> commands, the one
  for index \<open>j\<close> ending in \<open>--font-number=j\<close>. The \<open>K\<close> output file names are
  \<open><stem>-<index>-subset.ttf\<close> under the output directory and are pairwise distinct.
\<close>

theorem collection_fan_out:
  assumes "lower (path_suffix font_file) = ''.ttc''"
    and "get_font_count_in_collection e (fs (snd s)) font_file = Inr font_count"
    and "1 < font_count"
  shows "process_file e text_file output_dir n i font_file s
           = Inr (foldl (\<lambda>s j. run_job e text_file output_dir font_file (Some j)
                            (fst s, emit (ProcessingSubFont (j + 1) font_count) (snd s)))
                    (fst s, emit (CollectionDetected font_count)
                              (emit (ProcessingFile i n) (snd s)))
                    (map int [0..<nat font_count]))
    \<and> (case process_file e text_file output_dir n i font_file s of
          Inl x \<Rightarrow> False
        | Inr s' \<Rightarrow>
            total_fonts_processed (fst s') = total_fonts_processed (fst s) + nat font_count
            \<and> ((\<forall>h fsys cmd. path_exists fsys font_file \<longrightarrow>
                    path_exists (snd (subprocess_run e h fsys cmd)) font_file)
                \<and> (\<forall>h fsys cmd. path_exists fsys text_file \<longrightarrow>
                    path_exists (snd (subprocess_run e h fsys cmd)) text_file)
                \<and> path_exists (fs (snd s)) font_file \<and> path_exists (fs (snd s)) text_file
               \<longrightarrow> invocations (snd s')
                     = invocations (snd s)
                       @ map (\<lambda>j. build_cmd font_file text_file
                                    (output_file_name font_file output_dir (Some j)) (Some j))
                           (map int [0..<nat font_count])))
    \<and> distinct (map (\<lambda>j. output_file_name font_file output_dir (Some j))
                  (map int [0..<nat font_count]))
    \<and> (\<forall>j. output_file_name font_file output_dir (Some j)
              = os_path_join output_dir
                  (path_stem font_file @ ''-'' @ str_int j @ ''-subset.ttf'')
           \<and> last (build_cmd font_file text_file
                     (output_file_name font_file output_dir (Some j)) (Some j))
              = ''--font-number='' @ str_int j)"
proof -
  let ?s0 = "(fst s, emit (CollectionDetected font_count) (emit (ProcessingFile i n) (snd s)))"
  let ?r = "fan_out e text_file output_dir font_file font_count (range_list font_count) ?s0"
  have p: "process_file e text_file output_dir n i font_file s = Inr ?r"
    using assms by (rule process_file_fan_out)
  have 1: "process_file e text_file output_dir n i font_file s
           = Inr (foldl (\<lambda>s j. run_job e text_file output_dir font_file (Some j)
                            (fst s, emit (ProcessingSubFont (j + 1) font_count) (snd s)))
                    ?s0 (map int [0..<nat font_count]))"
    by (simp only: p fan_out_foldl range_list_def)
  have 2: "total_fonts_processed (fst ?r) = total_fonts_processed (fst s) + nat font_count"
    by (simp add: total_fan_out length_range_list)
  have 3: "invocations (snd ?r)
             = invocations (snd s)
               @ map (\<lambda>j. build_cmd font_file text_file
                            (output_file_name font_file output_dir (Some j)) (Some j))
                   (map int [0..<nat font_count])"
    if "\<forall>h fsys cmd. path_exists fsys font_file \<longrightarrow>
            path_exists (snd (subprocess_run e h fsys cmd)) font_file"
      and "\<forall>h fsys cmd. path_exists fsys text_file \<longrightarrow>
            path_exists (snd (subprocess_run e h fsys cmd)) text_file"
      and "path_exists (fs (snd s)) font_file" and "path_exists (fs (snd s)) text_file"
    using fan_out_invocations [of font_file e text_file ?s0 output_dir font_count
        "range_list font_count"] that
    by (simp add: range_list_def)
  have 4: "distinct (map (\<lambda>j. output_file_name font_file output_dir (Some j))
                  (map int [0..<nat font_count]))"
    using distinct_output_names [of font_file output_dir font_count]
    by (simp only: range_list_def)
  have 5: "last (build_cmd font_file text_file
                     (output_file_name font_file output_dir (Some j)) (Some j))
              = ''--font-number='' @ str_int j" for j
    by (simp add: build_cmd_def)
  show ?thesis
    using 1 2 3 4 5 by (simp add: p output_file_name_index)
qed


theorem collection_fan_out_witness:
  "lower (path_suffix ''sourceFont/Collection.ttc'') = ''.ttc''
   \<and> get_font_count_in_collection demo_env (fs (snd (zero_counters, demo_world)))
        ''sourceFont/Collection.ttc'' = Inr 2
   \<and> (1::int) < 2
   \<and> path_exists (fs (snd (zero_counters, demo_world))) ''sourceFont/Collection.ttc''
   \<and> path_exists (fs (snd (zero_counters, demo_world))) ''txt.txt''
   \<and> (case process_file demo_env ''txt.txt'' ''targetFont'' 2 2 ''sourceFont/Collection.ttc''
              (zero_counters, demo_world) of
        Inl x \<Rightarrow> False
      | Inr s' \<Rightarrow>
          total_fonts_processed (fst s') = 2
          \<and> invocations (snd s') =
              [[''fonttools'', ''subset'', ''sourceFont/Collection.ttc'', ''--text-file=txt.txt'',
                ''--output-file=targetFont/Collection-0-subset.ttf'', ''--font-number=0''],
               [''fonttools'', ''subset'', ''sourceFont/Collection.ttc'', ''--text-file=txt.txt'',
                ''--output-file=targetFont/Collection-1-subset.ttf'', ''--font-number=1'']])
   \<and> distinct [output_file_name ''sourceFont/Collection.ttc'' ''targetFont'' (Some 0),
                output_file_name ''sourceFont/Collection.ttc'' ''targetFont'' (Some 1)]"
proof -
  let ?f = "''sourceFont/Collection.ttc''"
  have a: "lower (path_suffix ?f) = ''.ttc''"
    by code_simp
  have b: "get_font_count_in_collection demo_env (fs (snd (zero_counters, demo_world))) ?f = Inr 2"
    by code_simp
  have c: "(1::int) < 2"
    by simp
  have d: "path_exists (fs (snd (zero_counters, demo_world))) ?f"
    "path_exists (fs (snd (zero_counters, demo_world))) ''txt.txt''"
    by code_simp+
  have k: "\<forall>h fsys cmd. path_exists fsys p \<longrightarrow>
      path_exists (snd (subprocess_run demo_env h fsys cmd)) p" for p
    by (simp add: demo_env_def path_exists_def)
  have u: "map int [0..<nat 2] = [0, 1]"
    by code_simp
  have cmds: "build_cmd ?f ''txt.txt'' (output_file_name ?f ''targetFont'' (Some 0)) (Some 0)
      = [''fonttools'', ''subset'', ''sourceFont/Collection.ttc'', ''--text-file=txt.txt'',
         ''--output-file=targetFont/Collection-0-subset.ttf'', ''--font-number=0'']"
    "build_cmd ?f ''txt.txt'' (output_file_name ?f ''targetFont'' (Some 1)) (Some 1)
      = [''fonttools'', ''subset'', ''sourceFont/Collection.ttc'', ''--text-file=txt.txt'',
         ''--output-file=targetFont/Collection-1-subset.ttf'', ''--font-number=1'']"
    by code_simp+
  have i: "invocations (snd (zero_counters, demo_world)) = []"
    by (simp add: demo_world_def)
  note t = collection_fan_out [OF a b c, where text_file = "''txt.txt''"
      and output_dir = "''targetFont''" and n = 2 and i = 2]
  obtain s' where p: "process_file demo_env ''txt.txt'' ''targetFont'' 2 2 ?f
      (zero_counters, demo_world) = Inr s'"
    using t by blast
  have B: "total_fonts_processed (fst s')
        = total_fonts_processed (fst (zero_counters, demo_world)) + nat 2
      \<and> ((\<forall>h fsys cmd. path_exists fsys ?f \<longrightarrow>
              path_exists (snd (subprocess_run demo_env h fsys cmd)) ?f)
          \<and> (\<forall>h fsys cmd. path_exists fsys ''txt.txt'' \<longrightarrow>
              path_exists (snd (subprocess_run demo_env h fsys cmd)) ''txt.txt'')
          \<and> path_exists (fs (snd (zero_counters, demo_world))) ?f
          \<and> path_exists (fs (snd (zero_counters, demo_world))) ''txt.txt''
         \<longrightarrow> invocations (snd s')
               = invocations (snd (zero_counters, demo_world))
                 @ map (\<lambda>j. build_cmd ?f ''txt.txt''
                              (output_file_name ?f ''targetFont'' (Some j)) (Some j))
                     (map int [0..<nat 2]))"
    using t [THEN conjunct2, THEN conjunct1] unfolding p sum.case .
  have B1: "total_fonts_processed (fst s') = 2"
    using B by (simp add: zero_counters_def)
  have "invocations (snd s')
      = invocations (snd (zero_counters, demo_world))
        @ map (\<lambda>j. build_cmd ?f ''txt.txt''
                     (output_file_name ?f ''targetFont'' (Some j)) (Some j))
            (map int [0..<nat 2])"
    using B d k [of ?f] k [of "''txt.txt''"] by blast
  then have B2: "invocations (snd s') =
      [[''fonttools'', ''subset'', ''sourceFont/Collection.ttc'', ''--text-file=txt.txt'',
        ''--output-file=targetFont/Collection-0-subset.ttf'', ''--font-number=0''],
       [''fonttools'', ''subset'', ''sourceFont/Collection.ttc'', ''--text-file=txt.txt'',
        ''--output-file=targetFont/Collection-1-subset.ttf'', ''--font-number=1'']]"
    by (simp only: u list.map cmds i append_Nil)
  have D: "distinct [output_file_name ?f ''targetFont'' (Some 0),
                    output_file_name ?f ''targetFont'' (Some 1)]"
    using t [THEN conjunct2, THEN conjunct2, THEN conjunct1]
    by (simp only: u list.map)
  show ?thesis
    unfolding p sum.case using a b c d B1 B2 D by blast
qed

section \<open>Font discovery\<close>

lemma endswith_iff: "endswith s suf \<longleftrightarrow> (\<exists>b. s = b @ suf)"
proof
  assume "endswith s suf"
  then have "s = take (length s - length suf) s @ suf"
    by (metis append_take_drop_id endswith_def)
  then show "\<exists>b. s = b @ suf" ..
next
  assume "\<exists>b. s = b @ suf"
  then show "endswith s suf"
    by (auto simp: endswith_def)
qed

lemma fnmatch_literal: "CHR ''*'' \<notin> set pat \<Longrightarrow> fnmatch n pat = (n = pat)"
  by (induction n pat rule: fnmatch.induct) auto

lemma fnmatch_star:
  assumes "CHR ''*'' \<notin> set lit"
  shows "fnmatch n (CHR ''*'' # lit) = endswith n lit"
proof (induction n)
  case Nil
  show ?case
    using assms by (cases lit) (auto simp: fnmatch_literal endswith_def)
next
  case (Cons c cs)
  have "fnmatch (c # cs) (CHR ''*'' # lit) = (c # cs = lit \<or> endswith cs lit)"
    using assms Cons by (simp add: fnmatch_literal)
  also have "\<dots> = endswith (c # cs) lit"
    unfolding endswith_iff by (auto simp: append_eq_Cons_conv Cons_eq_append_conv)
  finally show ?case .
qed

lemma glob1_star:
  assumes "CHR ''*'' \<notin> set lit"
  shows "glob1 fsys d (CHR ''*'' # lit)
     = map (os_path_join d) (filter (\<lambda>n. \<not> ishidden n \<and> endswith n lit) (scandir fsys d))"
  by (simp add: glob1_def fnmatch_star [OF assms])

lemma get_font_files_unfold:
  "get_font_files fsys d =
     concat (map (\<lambda>suf. map (os_path_join d)
                    (filter (\<lambda>n. \<not> ishidden n \<and> endswith n suf) (scandir fsys d)))
               matched_suffixes)"
proof -
  have u: "upper ''*.ttf'' = ''*.TTF''" "upper ''*.otf'' = ''*.OTF''"
    "upper ''*.woff'' = ''*.WOFF''" "upper ''*.woff2'' = ''*.WOFF2''"
    "upper ''*.ttc'' = ''*.TTC''"
    by (simp_all add: upper_def upper_char_def)
  show ?thesis
    by (simp add: get_font_files_def font_extensions_def matched_suffixes_def u glob1_star)
qed

lemma set_get_font_files:
  "set (get_font_files fsys d) =
     {os_path_join d n | n. n \<in> set (scandir fsys d) \<and> \<not> ishidden n
        \<and> (\<exists>suf \<in> set matched_suffixes. endswith n suf)}"
  unfolding get_font_files_unfold by auto


lemma os_path_join_sourceFont_inj:
  assumes "os_path_join ''sourceFont'' a = os_path_join ''sourceFont'' b"
  shows "a = b"
proof -
  have j: "os_path_join ''sourceFont'' x
      = (if x \<noteq> [] \<and> hd x = CHR ''/'' then x else ''sourceFont/'' @ x)" for x
    by (simp add: os_path_join_def)
  show ?thesis
    using assms by (auto simp: j split: if_splits)
qed

lemma endswith_both:
  assumes "endswith n s1" and "endswith n s2" and "length s1 \<le> length s2"
  shows "endswith s2 s1"
proof -
  from assms obtain a b where "n = a @ s1" and "n = b @ s2"
    unfolding endswith_iff by blast
  then have "a @ s1 = b @ s2"
    by simp
  then obtain c where "s2 = c @ s1"
    using assms(3) by (auto simp: append_eq_append_conv2)
  then show ?thesis
    unfolding endswith_iff by blast
qed

lemma matched_suffixes_apart:
  "list_all (\<lambda>s1. list_all (\<lambda>s2. endswith s2 s1 \<longrightarrow> s1 = s2) matched_suffixes) matched_suffixes"
  by code_simp

lemma matched_suffix_unique:
  assumes "s1 \<in> set matched_suffixes" and "s2 \<in> set matched_suffixes"
    and "endswith n s1" and "endswith n s2"
  shows "s1 = s2"
proof -
  have ap: "\<And>t1 t2. t1 \<in> set matched_suffixes \<Longrightarrow> t2 \<in> set matched_suffixes \<Longrightarrow>
      endswith t2 t1 \<Longrightarrow> t1 = t2"
    using matched_suffixes_apart by (simp only: list_all_iff)
  show ?thesis
  proof (cases "length s1 \<le> length s2")
    case True
    then have "endswith s2 s1"
      using assms(3,4) by (rule endswith_both [rotated 2])
    then show ?thesis
      using ap assms(1,2) by blast
  next
    case False
    then have "length s2 \<le> length s1"
      by simp
    then have "endswith s1 s2"
      using assms(4,3) by (rule endswith_both [rotated 2])
    then have "s2 = s1"
      using ap assms(1,2) by blast
    then show ?thesis by simp
  qed
qed

lemma distinct_matched_suffixes: "distinct matched_suffixes"
  by code_simp

lemma distinct_concat_classes:
  assumes "distinct xs" and "inj_on J (set xs)" and "distinct sufs"
    and "\<And>n s1 s2. s1 \<in> set sufs \<Longrightarrow> s2 \<in> set sufs \<Longrightarrow> P s1 n \<Longrightarrow> P s2 n \<Longrightarrow> s1 = s2"
  shows "distinct (concat (map (\<lambda>s. map J (filter (P s) xs)) sufs))"
  using assms(3,4)
proof (induction sufs)
  case Nil
  show ?case by simp
next
  case (Cons s sufs)
  have 1: "distinct (map J (filter (P s) xs))"
    using assms(1,2) by (auto simp: distinct_map intro: inj_on_subset)
  have 2: "distinct (concat (map (\<lambda>s. map J (filter (P s) xs)) sufs))"
    using Cons by simp
  have 3: "set (map J (filter (P s) xs))
      \<inter> set (concat (map (\<lambda>s. map J (filter (P s) xs)) sufs)) = {}"
  proof (rule ccontr)
    assume "set (map J (filter (P s) xs))
      \<inter> set (concat (map (\<lambda>s. map J (filter (P s) xs)) sufs)) \<noteq> {}"
    then obtain n n' s' where n: "n \<in> set xs" "P s n" and n': "n' \<in> set xs" "P s' n'"
      and s': "s' \<in> set sufs" and e: "J n = J n'"
      by auto
    from e n(1) n'(1) assms(2) have "n = n'"
      by (auto dest: inj_onD)
    with n n' s' have "s = s'"
      using Cons.prems(2) [of s s' n] by simp
    with s' Cons.prems(1) show False
      by simp
  qed
  show ?case
    using 1 2 3 by simp
qed

lemma distinct_get_font_files:
  assumes "distinct (scandir fsys ''sourceFont'')"
  shows "distinct (get_font_files fsys ''sourceFont'')"
proof -
  have i: "inj_on (os_path_join ''sourceFont'') (set (scandir fsys ''sourceFont''))"
    by (auto simp: inj_on_def dest: os_path_join_sourceFont_inj)
  have "distinct (concat (map (\<lambda>suf. map (os_path_join ''sourceFont'')
                    (filter (\<lambda>n. \<not> ishidden n \<and> endswith n suf) (scandir fsys ''sourceFont'')))
               matched_suffixes))"
    using assms i distinct_matched_suffixes
  proof (rule distinct_concat_classes)
    fix n s1 s2
    assume "s1 \<in> set matched_suffixes" "s2 \<in> set matched_suffixes"
      "\<not> ishidden n \<and> endswith n s1" "\<not> ishidden n \<and> endswith n s2"
    then show "s1 = s2"
      using matched_suffix_unique by blast
  qed
  then show ?thesis
    by (simp only: get_font_files_unfold)
qed

text \<open>
  C9, as stated, fails: \<open>Serif.Ttf\<close> and \<open>.hidden.ttf\<close> both carry an allowed extension
  (case-insensitively) and neither is returned.
\<close>

theorem discovery_misses_mixed_case:
  "scandir mixed_case_fs ''sourceFont'' = [''Serif.Ttf'', ''.hidden.ttf'']
   \<and> lower (path_suffix ''sourceFont/Serif.Ttf'') = ''.ttf''
   \<and> lower (path_suffix ''sourceFont/.hidden.ttf'') = ''.ttf''
   \<and> get_font_files mixed_case_fs ''sourceFont'' = []"
  by code_simp

text \<open>
  C9, amended. On POSIX, for the source directory \<open>sourceFont\<close> of the batch, discovery
  returns the entries of that directory whose name does not start with a dot and ends
  in one of the five extensions written all in lower case or all in upper case: the
  list is, ending by ending, the qualifying entries in listing order, each joined to
  the directory; an entry listed once is returned once. It reads nothing but the
  listing of that one directory, and it returns the empty list when no entry
  qualifies.
\<close>

theorem discovery_lower_or_upper:
  "get_font_files fsys ''sourceFont'' =
     concat (map (\<lambda>suf. map (os_path_join ''sourceFont'')
                    (filter (\<lambda>n. \<not> ishidden n \<and> endswith n suf)
                       (scandir fsys ''sourceFont'')))
               matched_suffixes)
   \<and> set (get_font_files fsys ''sourceFont'') =
       {os_path_join ''sourceFont'' n | n. n \<in> set (scandir fsys ''sourceFont'') \<and> \<not> ishidden n
          \<and> (\<exists>suf \<in> set matched_suffixes. endswith n suf)}
   \<and> (distinct (scandir fsys ''sourceFont'') \<longrightarrow> distinct (get_font_files fsys ''sourceFont''))
   \<and> (scandir fsys ''sourceFont'' = scandir fsys' ''sourceFont'' \<longrightarrow>
        get_font_files fsys ''sourceFont'' = get_font_files fsys' ''sourceFont'')
   \<and> ((\<forall>n \<in> set (scandir fsys ''sourceFont'').
          ishidden n \<or> (\<forall>suf \<in> set matched_suffixes. \<not> endswith n suf)) \<longrightarrow>
        get_font_files fsys ''sourceFont'' = [])"
proof (intro conjI impI)
  show "get_font_files fsys ''sourceFont'' =
     concat (map (\<lambda>suf. map (os_path_join ''sourceFont'')
                    (filter (\<lambda>n. \<not> ishidden n \<and> endswith n suf)
                       (scandir fsys ''sourceFont'')))
               matched_suffixes)"
    by (rule get_font_files_unfold)
next
  show "set (get_font_files fsys ''sourceFont'') =
       {os_path_join ''sourceFont'' n | n. n \<in> set (scandir fsys ''sourceFont'') \<and> \<not> ishidden n
          \<and> (\<exists>suf \<in> set matched_suffixes. endswith n suf)}"
    by (rule set_get_font_files)
next
  assume "distinct (scandir fsys ''sourceFont'')"
  then show "distinct (get_font_files fsys ''sourceFont'')"
    by (rule distinct_get_font_files)
next
  assume "scandir fsys ''sourceFont'' = scandir fsys' ''sourceFont''"
  then show "get_font_files fsys ''sourceFont'' = get_font_files fsys' ''sourceFont''"
    by (simp add: get_font_files_unfold)
next
  assume "\<forall>n \<in> set (scandir fsys ''sourceFont'').
          ishidden n \<or> (\<forall>suf \<in> set matched_suffixes. \<not> endswith n suf)"
  then have "set (get_font_files fsys ''sourceFont'') = {}"
    unfolding set_get_font_files by blast
  then show "get_font_files fsys ''sourceFont'' = []"
    by simp
qed

theorem discovery_lower_or_upper_witness:
  "scandir demo_fs ''sourceFont'' = scandir (demo_fs(''targetFont'' \<mapsto> Dir 0 [])) ''sourceFont''
   \<and> get_font_files demo_fs ''sourceFont''
       = get_font_files (demo_fs(''targetFont'' \<mapsto> Dir 0 [])) ''sourceFont''
   \<and> list_all (\<lambda>n. ishidden n \<or> list_all (\<lambda>suf. \<not> endswith n suf) matched_suffixes)
        (scandir no_fonts_fs ''sourceFont'')
   \<and> get_font_files no_fonts_fs ''sourceFont'' = []
   \<and> distinct (scandir demo_fs ''sourceFont'')
   \<and> distinct (get_font_files demo_fs ''sourceFont'')
   \<and> ''Serif.ttf'' \<in> set (scandir demo_fs ''sourceFont'')
   \<and> \<not> ishidden ''Serif.ttf''
   \<and> ''.ttf'' \<in> set matched_suffixes
   \<and> endswith ''Serif.ttf'' ''.ttf''
   \<and> os_path_join ''sourceFont'' ''Serif.ttf'' \<in> set (get_font_files demo_fs ''sourceFont'')"
proof -
  have a: "scandir demo_fs ''sourceFont''
      = scandir (demo_fs(''targetFont'' \<mapsto> Dir 0 [])) ''sourceFont''"
    by (simp add: scandir_def)
  have b: "list_all (\<lambda>n. ishidden n \<or> list_all (\<lambda>suf. \<not> endswith n suf) matched_suffixes)
        (scandir no_fonts_fs ''sourceFont'')"
    by code_simp
  have c: "''Serif.ttf'' \<in> set (scandir demo_fs ''sourceFont'')"
    by (simp add: scandir_def demo_fs_def)
  have d: "\<not> ishidden ''Serif.ttf''" "''.ttf'' \<in> set matched_suffixes"
    "endswith ''Serif.ttf'' ''.ttf''"
    by (simp_all add: ishidden_def matched_suffixes_def endswith_def)
  have e: "distinct (scandir demo_fs ''sourceFont'')"
    by (simp add: scandir_def demo_fs_def)
  have b': "\<forall>n \<in> set (scandir no_fonts_fs ''sourceFont'').
          ishidden n \<or> (\<forall>suf \<in> set matched_suffixes. \<not> endswith n suf)"
    using b by (simp only: list_all_iff)
  note t1 = discovery_lower_or_upper [where fsys = demo_fs
      and fsys' = "demo_fs(''targetFont'' \<mapsto> Dir 0 [])"]
  note t2 = discovery_lower_or_upper [where fsys = no_fonts_fs]
  have 1: "get_font_files demo_fs ''sourceFont''
       = get_font_files (demo_fs(''targetFont'' \<mapsto> Dir 0 [])) ''sourceFont''"
    using t1 a by blast
  have 2: "get_font_files no_fonts_fs ''sourceFont'' = []"
    using t2 b' by blast
  have "set (get_font_files demo_fs ''sourceFont'') =
     {os_path_join ''sourceFont'' n | n. n \<in> set (scandir demo_fs ''sourceFont'') \<and> \<not> ishidden n
        \<and> (\<exists>suf \<in> set matched_suffixes. endswith n suf)}"
    using t1 by blast
  then have 3: "os_path_join ''sourceFont'' ''Serif.ttf'' \<in> set (get_font_files demo_fs ''sourceFont'')"
    using c d by blast
  have 4: "distinct (get_font_files demo_fs ''sourceFont'')"
    using t1 e by blast
  show ?thesis
    using a b c d e 1 2 3 4 by blast
qed

section \<open>The search for the index range\<close>

lemma match_here_unfold:
  "match_here s =
     (if take (length ''between 0 and '') s = ''between 0 and ''
         \<and> takeWhile is_digit (drop (length ''between 0 and '') s) \<noteq> []
      then Some (takeWhile is_digit (drop (length ''between 0 and '') s)) else None)"
  by (simp only: match_here_def Let_def)

lemma match_here_Some:
  assumes "match_here s = Some ds"
  shows "\<exists>post. s = ''between 0 and '' @ ds @ post \<and> ds \<noteq> [] \<and> (\<forall>c \<in> set ds. is_digit c)
           \<and> (post = [] \<or> \<not> is_digit (hd post))"
proof -
  define L where "L = ''between 0 and ''"
  let ?r = "drop (length L) s"
  have u: "match_here s =
     (if take (length L) s = L \<and> takeWhile is_digit ?r \<noteq> []
      then Some (takeWhile is_digit ?r) else None)"
    unfolding L_def by (rule match_here_unfold)
  from assms have t: "take (length L) s = L" and d: "ds = takeWhile is_digit ?r"
    and n: "ds \<noteq> []"
    unfolding u by (auto split: if_splits)
  have "s = take (length L) s @ ?r"
    by simp
  also have "\<dots> = L @ ds @ dropWhile is_digit ?r"
    by (simp only: t d takeWhile_dropWhile_id)
  finally have 1: "s = L @ ds @ dropWhile is_digit ?r" .
  have 2: "\<forall>c \<in> set ds. is_digit c"
    unfolding d by (auto dest: set_takeWhileD)
  have 3: "dropWhile is_digit ?r = [] \<or> \<not> is_digit (hd (dropWhile is_digit ?r))"
    by (metis hd_dropWhile)
  show ?thesis
    using 1 2 3 n unfolding L_def by blast
qed

lemma takeWhile_digits:
  assumes "\<forall>c \<in> set ds. is_digit c" and "post = [] \<or> \<not> is_digit (hd post)"
  shows "takeWhile is_digit (ds @ post) = ds"
proof -
  have "takeWhile is_digit post = []"
    using assms(2) by (cases post) auto
  moreover have "takeWhile is_digit (ds @ post) = ds @ takeWhile is_digit post"
    using assms(1) by (intro takeWhile_append2) blast
  ultimately show ?thesis
    by simp
qed

lemma match_here_literal:
  assumes "ds \<noteq> []" and "\<forall>c \<in> set ds. is_digit c" and "post = [] \<or> \<not> is_digit (hd post)"
  shows "match_here (''between 0 and '' @ ds @ post) = Some ds"
proof -
  define L where "L = ''between 0 and ''"
  have "match_here (L @ ds @ post) =
     (if take (length L) (L @ ds @ post) = L
         \<and> takeWhile is_digit (drop (length L) (L @ ds @ post)) \<noteq> []
      then Some (takeWhile is_digit (drop (length L) (L @ ds @ post))) else None)"
    unfolding L_def by (rule match_here_unfold)
  also have "\<dots> = Some ds"
    using assms(1) by (simp add: takeWhile_digits [OF assms(2,3)])
  finally show ?thesis
    unfolding L_def .
qed

lemma match_here_digit:
  assumes "is_digit d"
  shows "match_here (''between 0 and '' @ d # post) \<noteq> None"
proof -
  define L where "L = ''between 0 and ''"
  have "match_here (L @ d # post) =
     (if take (length L) (L @ d # post) = L
         \<and> takeWhile is_digit (drop (length L) (L @ d # post)) \<noteq> []
      then Some (takeWhile is_digit (drop (length L) (L @ d # post))) else None)"
    unfolding L_def by (rule match_here_unfold)
  then have "match_here (L @ d # post) \<noteq> None"
    using assms by simp
  then show ?thesis
    unfolding L_def .
qed

lemma match_here_None_iff:
  "match_here s = None \<longleftrightarrow> \<not> (\<exists>d post. s = ''between 0 and '' @ d # post \<and> is_digit d)"
proof
  assume "match_here s = None"
  then show "\<not> (\<exists>d post. s = ''between 0 and '' @ d # post \<and> is_digit d)"
    using match_here_digit by blast
next
  assume h: "\<not> (\<exists>d post. s = ''between 0 and '' @ d # post \<and> is_digit d)"
  show "match_here s = None"
  proof (rule ccontr)
    assume "match_here s \<noteq> None"
    then obtain ds where "match_here s = Some ds"
      by blast
    then obtain post where s: "s = ''between 0 and '' @ ds @ post" and "ds \<noteq> []"
      and dg: "\<forall>c \<in> set ds. is_digit c"
      using match_here_Some by blast
    then obtain d ds' where "ds = d # ds'"
      by (cases ds) auto
    with s dg have "s = ''between 0 and '' @ d # (ds' @ post) \<and> is_digit d"
      by simp
    with h show False
      by blast
  qed
qed

lemma re_search_None_iff:
  "re_search msg = None \<longleftrightarrow>
     \<not> (\<exists>pre d post. msg = pre @ ''between 0 and '' @ d # post \<and> is_digit d)"
proof (induction msg)
  case Nil
  show ?case by simp
next
  case (Cons c cs)
  have "re_search (c # cs) = None \<longleftrightarrow> match_here (c # cs) = None \<and> re_search cs = None"
    by (simp split: option.splits)
  also have "\<dots> \<longleftrightarrow> \<not> (\<exists>d post. c # cs = ''between 0 and '' @ d # post \<and> is_digit d)
      \<and> \<not> (\<exists>pre d post. cs = pre @ ''between 0 and '' @ d # post \<and> is_digit d)"
    by (simp only: match_here_None_iff Cons.IH)
  also have "\<dots> \<longleftrightarrow> \<not> (\<exists>pre d post. c # cs = pre @ ''between 0 and '' @ d # post \<and> is_digit d)"
  proof -
    have "(\<exists>pre d post. c # cs = pre @ ''between 0 and '' @ d # post \<and> is_digit d)
      \<longleftrightarrow> (\<exists>d post. c # cs = ''between 0 and '' @ d # post \<and> is_digit d)
        \<or> (\<exists>pre d post. cs = pre @ ''between 0 and '' @ d # post \<and> is_digit d)"
      (is "?L \<longleftrightarrow> ?A \<or> ?B")
    proof
      assume ?L
      then obtain pre d post where
        e: "c # cs = pre @ ''between 0 and '' @ d # post" and d: "is_digit d"
        by blast
      show "?A \<or> ?B"
      proof (cases pre)
        case Nil
        with e d show ?thesis by auto
      next
        case (Cons p pre')
        with e have "cs = pre' @ ''between 0 and '' @ d # post"
          by simp
        with d show ?thesis by blast
      qed
    next
      assume "?A \<or> ?B"
      then show ?L
      proof
        assume ?A
        then obtain d post where "c # cs = [] @ ''between 0 and '' @ d # post" and "is_digit d"
          by auto
        then show ?L by blast
      next
        assume ?B
        then obtain pre d post where "cs = pre @ ''between 0 and '' @ d # post" and "is_digit d"
          by blast
        then have "c # cs = (c # pre) @ ''between 0 and '' @ d # post \<and> is_digit d"
          by simp
        then show ?L by blast
      qed
    qed
    then show ?thesis by blast
  qed
  finally show ?case .
qed

lemma re_search_step:
  "s \<noteq> [] \<Longrightarrow>
     re_search s = (case match_here s of Some r \<Rightarrow> Some r | None \<Rightarrow> re_search (tl s))"
  by (cases s) (simp_all split: option.splits)

text \<open>The leftmost match, for a literal \<open>L\<close> that \<open>match_here\<close> looks for.\<close>

lemma re_search_leftmost_gen:
  assumes lit: "match_here (L @ ds @ post) = Some ds"
    and none: "\<And>s. (match_here s = None) = (\<not> (\<exists>d q. s = L @ d # q \<and> is_digit d))"
    and ne: "L @ ds @ post \<noteq> []"
    and left: "\<forall>pre' d post'. pre @ L @ ds @ post = pre' @ L @ d # post' \<and> is_digit d
           \<longrightarrow> length pre \<le> length pre'"
  shows "re_search (pre @ L @ ds @ post) = Some ds"
  using left
proof (induction pre)
  case Nil
  have "re_search (L @ ds @ post)
      = (case match_here (L @ ds @ post) of Some r \<Rightarrow> Some r
         | None \<Rightarrow> re_search (tl (L @ ds @ post)))"
    using ne by (rule re_search_step)
  also have "\<dots> = Some ds"
    by (simp only: lit option.case)
  finally show ?case
    by (simp only: append_Nil)
next
  case (Cons c pre)
  let ?m = "pre @ L @ ds @ post"
  have m: "match_here (c # ?m) = None"
  proof (rule ccontr)
    assume "match_here (c # ?m) \<noteq> None"
    then obtain d q where e: "c # ?m = L @ d # q" and d: "is_digit d"
      unfolding none by blast
    have "(c # pre) @ L @ ds @ post = [] @ L @ d # q"
      using e by (simp only: append_Cons append_Nil)
    then have "length (c # pre) \<le> length ([] :: string)"
      using Cons.prems d by blast
    then show False
      by simp
  qed
  have "re_search ((c # pre) @ L @ ds @ post) = re_search (c # ?m)"
    by (simp only: append_Cons)
  also have "\<dots> = re_search ?m"
    by (simp only: re_search.simps m option.case)
  finally have 1: "re_search ((c # pre) @ L @ ds @ post) = re_search ?m" .
  have 2: "\<forall>pre' d post'. ?m = pre' @ L @ d # post' \<and> is_digit d
      \<longrightarrow> length pre \<le> length pre'"
  proof (intro allI impI)
    fix pre' d post'
    assume h: "?m = pre' @ L @ d # post' \<and> is_digit d"
    then have "(c # pre) @ L @ ds @ post = (c # pre') @ L @ d # post'"
      by (simp only: append_Cons)
    then have "length (c # pre) \<le> length (c # pre')"
      using Cons.prems h by blast
    then show "length pre \<le> length pre'"
      by simp
  qed
  show ?case
    using Cons.IH [OF 2] 1 by (simp only:)
qed

lemma re_search_leftmost:
  assumes "ds \<noteq> []" and "\<forall>c \<in> set ds. is_digit c" and "post = [] \<or> \<not> is_digit (hd post)"
    and "\<forall>pre' d post'. pre @ ''between 0 and '' @ ds @ post = pre' @ ''between 0 and '' @ d # post'
           \<and> is_digit d \<longrightarrow> length pre \<le> length pre'"
  shows "re_search (pre @ ''between 0 and '' @ ds @ post) = Some ds"
proof (rule re_search_leftmost_gen)
  show "match_here (''between 0 and '' @ ds @ post) = Some ds"
    using assms(1,2,3) by (rule match_here_literal)
  show "(match_here s = None) = (\<not> (\<exists>d q. s = ''between 0 and '' @ d # q \<and> is_digit d))" for s
    by (rule match_here_None_iff)
  show "''between 0 and '' @ ds @ post \<noteq> []"
    using assms(1) by (simp only: append_is_Nil_conv) blast
  show "\<forall>pre' d post'. pre @ ''between 0 and '' @ ds @ post = pre' @ ''between 0 and '' @ d # post'
           \<and> is_digit d \<longrightarrow> length pre \<le> length pre'"
    by (rule assms(4))
qed


text \<open>A way to check that an occurrence is the leftmost one.\<close>

lemma no_earlier_match:
  assumes "list_all (\<lambda>k. match_here (drop k msg) = None) [0..<length pre]"
  shows "\<forall>pre' d post'. msg = pre' @ ''between 0 and '' @ d # post' \<and> is_digit d
           \<longrightarrow> length pre \<le> length pre'"
proof (intro allI impI)
  fix pre' d post'
  assume h: "msg = pre' @ ''between 0 and '' @ d # post' \<and> is_digit d"
  show "length pre \<le> length pre'"
  proof (rule ccontr)
    assume "\<not> length pre \<le> length pre'"
    then have "match_here (drop (length pre') msg) = None"
      using assms by (simp add: list_all_iff)
    moreover have "drop (length pre') msg = ''between 0 and '' @ d # post'"
      by (simp only: h [THEN conjunct1] drop_append) simp
    ultimately have "match_here (''between 0 and '' @ d # post') = None"
      by (simp only:)
    then show False
      using h match_here_digit by blast
  qed
qed

section \<open>The collection inspector\<close>

text \<open>
  C3. Where the library import works, the inspector returns 1 when the file opens as a
  single font; \<open>N + 1\<close> when opening raises the collection error and the message's
  leftmost \<open>between 0 and <digits>\<close> carries the decimal numeral of \<open>N\<close> (in general: the
  value of the digits there, plus 1); and 0 when the collection error's message has no
  \<open>between 0 and <digit>\<close> in it, or when opening raises any other exception.
\<close>

theorem inspector_count:
  assumes "fonttools_importable e"
  shows "(ttfont e fsys font_file = Opened \<longrightarrow>
           get_font_count_in_collection e fsys font_file = Inr 1)
    \<and> (ttfont e fsys font_file
           = CollectionError (pre @ ''between 0 and '' @ str_nat N @ post)
        \<and> (post = [] \<or> \<not> is_digit (hd post))
        \<and> (\<forall>pre' d post'.
              pre @ ''between 0 and '' @ str_nat N @ post = pre' @ ''between 0 and '' @ d # post'
              \<and> is_digit d \<longrightarrow> length pre \<le> length pre')
       \<longrightarrow> get_font_count_in_collection e fsys font_file = Inr (int N + 1))
    \<and> (ttfont e fsys font_file = CollectionError (pre @ ''between 0 and '' @ ds @ post)
        \<and> ds \<noteq> [] \<and> (\<forall>c \<in> set ds. is_digit c)
        \<and> (post = [] \<or> \<not> is_digit (hd post))
        \<and> (\<forall>pre' d post'.
              pre @ ''between 0 and '' @ ds @ post = pre' @ ''between 0 and '' @ d # post'
              \<and> is_digit d \<longrightarrow> length pre \<le> length pre')
       \<longrightarrow> get_font_count_in_collection e fsys font_file = Inr (int_of_digits ds + 1))
    \<and> (ttfont e fsys font_file = CollectionError msg
        \<and> \<not> (\<exists>pre d post. msg = pre @ ''between 0 and '' @ d # post \<and> is_digit d)
       \<longrightarrow> get_font_count_in_collection e fsys font_file = Inr 0)
    \<and> (ttfont e fsys font_file = OpenFailed \<longrightarrow>
           get_font_count_in_collection e fsys font_file = Inr 0)"
proof -
  have 1: "get_font_count_in_collection e fsys font_file = Inr 1"
    if "ttfont e fsys font_file = Opened"
    using assms that by (simp add: get_font_count_in_collection_def)
  have 3: "get_font_count_in_collection e fsys font_file = Inr (int_of_digits ds + 1)"
    if "ttfont e fsys font_file = CollectionError (pre @ ''between 0 and '' @ ds @ post)
        \<and> ds \<noteq> [] \<and> (\<forall>c \<in> set ds. is_digit c)
        \<and> (post = [] \<or> \<not> is_digit (hd post))
        \<and> (\<forall>pre' d post'.
              pre @ ''between 0 and '' @ ds @ post = pre' @ ''between 0 and '' @ d # post'
              \<and> is_digit d \<longrightarrow> length pre \<le> length pre')"
    for ds
  proof -
    have "re_search (pre @ ''between 0 and '' @ ds @ post) = Some ds"
      using that by (intro re_search_leftmost) blast+
    then show ?thesis
      using assms that by (simp only: get_font_count_in_collection_def) simp
  qed
  have 2: "get_font_count_in_collection e fsys font_file = Inr (int N + 1)"
    if "ttfont e fsys font_file
           = CollectionError (pre @ ''between 0 and '' @ str_nat N @ post)
        \<and> (post = [] \<or> \<not> is_digit (hd post))
        \<and> (\<forall>pre' d post'.
              pre @ ''between 0 and '' @ str_nat N @ post = pre' @ ''between 0 and '' @ d # post'
              \<and> is_digit d \<longrightarrow> length pre \<le> length pre')"
    using 3 [of "str_nat N"] that str_nat_not_Nil [of N] str_nat_digits [of N]
    by (simp only: int_of_digits_str_nat) blast
  have 4: "get_font_count_in_collection e fsys font_file = Inr 0"
    if "ttfont e fsys font_file = CollectionError msg
        \<and> \<not> (\<exists>pre d post. msg = pre @ ''between 0 and '' @ d # post \<and> is_digit d)"
  proof -
    have "re_search msg = None"
      using that re_search_None_iff [of msg] by blast
    then show ?thesis
      using assms that by (simp add: get_font_count_in_collection_def)
  qed
  have 5: "get_font_count_in_collection e fsys font_file = Inr 0"
    if "ttfont e fsys font_file = OpenFailed"
    using assms that by (simp add: get_font_count_in_collection_def)
  show ?thesis
    using 1 2 3 4 5 by blast
qed


theorem inspector_count_witness:
  "fonttools_importable demo_env
   \<and> ttfont demo_env demo_fs ''sourceFont/Serif.ttf'' = Opened
   \<and> get_font_count_in_collection demo_env demo_fs ''sourceFont/Serif.ttf'' = Inr 1
   \<and> ttfont demo_env demo_fs ''sourceFont/Collection.ttc''
       = CollectionError (''specify a font number '' @ ''between 0 and '' @ str_nat 1
                            @ '' (inclusive)'')
   \<and> \<not> is_digit (hd '' (inclusive)'')
   \<and> list_all (\<lambda>k. match_here (drop k (''specify a font number '' @ ''between 0 and ''
                     @ str_nat 1 @ '' (inclusive)'')) = None)
        [0..<length ''specify a font number '']
   \<and> get_font_count_in_collection demo_env demo_fs ''sourceFont/Collection.ttc''
       = Inr (int 1 + 1)
   \<and> fonttools_importable vague_env
   \<and> ttfont vague_env demo_fs ''sourceFont/Collection.ttc''
       = CollectionError ''this file is a collection''
   \<and> re_search ''this file is a collection'' = None
   \<and> get_font_count_in_collection vague_env demo_fs ''sourceFont/Collection.ttc'' = Inr 0
   \<and> fonttools_importable broken_env
   \<and> ttfont broken_env demo_fs ''sourceFont/Collection.ttc'' = OpenFailed
   \<and> get_font_count_in_collection broken_env demo_fs ''sourceFont/Collection.ttc'' = Inr 0"
proof -
  let ?c = "''sourceFont/Collection.ttc''"
  let ?msg = "''specify a font number '' @ ''between 0 and '' @ str_nat 1 @ '' (inclusive)''"
  have i: "fonttools_importable demo_env" "fonttools_importable vague_env"
    "fonttools_importable broken_env"
    by (simp_all add: demo_env_def vague_env_def broken_env_def)
  have o: "ttfont demo_env demo_fs ''sourceFont/Serif.ttf'' = Opened"
    by (simp add: demo_env_def)
  have n: "str_nat 1 = ''1''"
    by code_simp
  have m: "ttfont demo_env demo_fs ?c = CollectionError ?msg"
    by (simp only: n) (simp add: demo_env_def)
  have p: "\<not> is_digit (hd '' (inclusive)'')"
    by (simp add: is_digit_def)
  have l: "list_all (\<lambda>k. match_here (drop k ?msg) = None) [0..<length ''specify a font number '']"
    by code_simp
  have v: "ttfont vague_env demo_fs ?c = CollectionError ''this file is a collection''"
    by (simp add: vague_env_def)
  have r: "re_search ''this file is a collection'' = None"
    by code_simp
  have nr: "\<not> (\<exists>pre d post. ''this file is a collection'' = pre @ ''between 0 and '' @ d # post
      \<and> is_digit d)"
    using r re_search_None_iff [of "''this file is a collection''"] by blast
  have f: "ttfont broken_env demo_fs ?c = OpenFailed"
    by (simp add: broken_env_def)
  have 1: "get_font_count_in_collection demo_env demo_fs ''sourceFont/Serif.ttf'' = Inr 1"
    using inspector_count [OF i(1), where fsys = demo_fs and font_file = "''sourceFont/Serif.ttf''"]
      o by blast
  have 2: "get_font_count_in_collection demo_env demo_fs ?c = Inr (int 1 + 1)"
    using inspector_count [OF i(1), where fsys = demo_fs and font_file = ?c
        and pre = "''specify a font number ''" and N = 1 and post = "'' (inclusive)''"]
      m p no_earlier_match [OF l]
    by blast
  have 3: "get_font_count_in_collection vague_env demo_fs ?c = Inr 0"
    using inspector_count [OF i(2), where fsys = demo_fs and font_file = ?c
        and msg = "''this file is a collection''"] v nr
    by blast
  have 4: "get_font_count_in_collection broken_env demo_fs ?c = Inr 0"
    using inspector_count [OF i(3), where fsys = demo_fs and font_file = ?c] f by blast
  show ?thesis
    using i o m p l v r f 1 2 3 4 by blast
qed

section \<open>Names of files\<close>

lemma split_on_not_Nil: "split_on sep s \<noteq> []"
  by (induction s) (auto split: list.splits)

lemma split_on_no_sep: "sep \<notin> set s \<Longrightarrow> split_on sep s = [s]"
  by (induction s) auto

lemma split_on_append: "split_on sep (a @ sep # b) = split_on sep a @ split_on sep b"
proof (induction a)
  case Nil
  show ?case by simp
next
  case (Cons c a)
  obtain p ps where s: "split_on sep a = p # ps"
    using split_on_not_Nil [of sep a] by (cases "split_on sep a") auto
  show ?case
    using Cons s by simp
qed

lemma path_name_plain:
  assumes "CHR ''/'' \<notin> set name" and "name \<noteq> []" and "name \<noteq> ''.''"
  shows "path_name name = name"
  using assms by (simp add: path_name_def split_on_no_sep)

lemma path_name_dir:
  assumes "CHR ''/'' \<notin> set name" and "name \<noteq> []" and "name \<noteq> ''.''"
  shows "path_name (d @ CHR ''/'' # name) = name"
proof -
  let ?keep = "\<lambda>x. x \<noteq> [] \<and> x \<noteq> ''.''"
  have "filter ?keep (split_on CHR ''/'' (d @ CHR ''/'' # name))
      = filter ?keep (split_on CHR ''/'' d) @ [name]"
    using assms by (simp add: split_on_append split_on_no_sep)
  moreover have "(case zs of [] \<Rightarrow> [] | x # r \<Rightarrow> last (x # r)) = last zs"
    if "zs \<noteq> []" for zs :: "string list"
    using that by (cases zs) simp_all
  ultimately show ?thesis
    by (simp add: path_name_def)
qed

lemma takeWhile_until:
  assumes "\<forall>y \<in> set xs. P y" and "\<not> P x"
  shows "takeWhile P (xs @ x # l) = xs"
  using assms by (induction xs) auto

lemma rfind_last_dot:
  assumes "CHR ''.'' \<notin> set ext"
  shows "rfind CHR ''.'' (base @ CHR ''.'' # ext) = int (length base)"
proof -
  have "takeWhile (\<lambda>x. x \<noteq> CHR ''.'') (rev ext @ CHR ''.'' # rev base) = rev ext"
    using assms by (intro takeWhile_until) auto
  then show ?thesis
    by (simp add: rfind_def)
qed

lemma suffix_stem_of_name:
  assumes "path_name p = base @ CHR ''.'' # ext"
    and "base \<noteq> []" and "ext \<noteq> []" and "CHR ''.'' \<notin> set ext"
  shows "path_suffix p = CHR ''.'' # ext" and "path_stem p = base"
  using assms by (simp_all add: path_suffix_def path_stem_def Let_def rfind_last_dot)

lemma name_of_base_ext:
  assumes "base \<noteq> []" and "CHR ''/'' \<notin> set base" and "CHR ''/'' \<notin> set ext"
  shows "path_name (base @ CHR ''.'' # ext) = base @ CHR ''.'' # ext"
    and "path_name (d @ CHR ''/'' # base @ CHR ''.'' # ext) = base @ CHR ''.'' # ext"
proof -
  have 1: "CHR ''/'' \<notin> set (base @ CHR ''.'' # ext)"
    using assms by simp
  have 2: "base @ CHR ''.'' # ext \<noteq> []"
    by simp
  have 3: "base @ CHR ''.'' # ext \<noteq> ''.''"
    using assms(1) by (cases base) auto
  show "path_name (base @ CHR ''.'' # ext) = base @ CHR ''.'' # ext"
    using 1 2 3 by (rule path_name_plain)
  show "path_name (d @ CHR ''/'' # base @ CHR ''.'' # ext) = base @ CHR ''.'' # ext"
    using 1 2 3 by (rule path_name_dir)
qed

lemma endswith_os_path_join: "endswith (os_path_join a (b @ suf)) suf"
  unfolding endswith_iff os_path_join_def
  by (metis append.assoc)


text \<open>
  C8, as stated, fails for an extension that is not in lower case: \<open>Serif.TTF\<close> is
  written to \<open>Serif-subset.ttf\<close>, not to \<open>Serif-subset.TTF\<close>.
\<close>

theorem output_name_lower_cases_extension:
  "path_stem ''sourceFont/Serif.TTF'' = ''Serif''
   \<and> path_suffix ''sourceFont/Serif.TTF'' = ''.TTF''
   \<and> lower (path_suffix ''sourceFont/Serif.TTF'') \<noteq> ''.ttc''
   \<and> output_file_name ''sourceFont/Serif.TTF'' ''targetFont'' None
       = ''targetFont/Serif-subset.ttf''
   \<and> output_file_name ''sourceFont/Serif.TTF'' ''targetFont'' None
       \<noteq> os_path_join ''targetFont''
           (path_stem ''sourceFont/Serif.TTF'' @ ''-subset'' @ path_suffix ''sourceFont/Serif.TTF'')"
  by code_simp

text \<open>
  C8, amended. With a collection index the output file is \<open><stem>-<index>-subset.ttf\<close>;
  without one it is \<open><stem>-subset.ttf\<close> for a \<open>.ttc\<close> input (whatever the case of its
  extension) and \<open><stem>-subset<suffix>\<close> otherwise, where \<open><suffix>\<close> is the input's
  extension with its dot, in lower case. A \<open>.ttc\<close> input and an indexed job always give
  a name ending in \<open>.ttf\<close>. For a path \<open><dir>/<base>.<ext>\<close> (or \<open><base>.<ext>\<close>) the
  stem is \<open><base>\<close> and the suffix is \<open>.<ext>\<close>.
\<close>

theorem output_file_names:
  "output_file_name font_file output_dir (Some i)
     = os_path_join output_dir (path_stem font_file @ ''-'' @ str_int i @ ''-subset.ttf'')
   \<and> (lower (path_suffix font_file) = ''.ttc'' \<longrightarrow>
        output_file_name font_file output_dir None
          = os_path_join output_dir (path_stem font_file @ ''-subset.ttf''))
   \<and> (lower (path_suffix font_file) \<noteq> ''.ttc'' \<longrightarrow>
        output_file_name font_file output_dir None
          = os_path_join output_dir
              (path_stem font_file @ ''-subset'' @ lower (path_suffix font_file)))
   \<and> (lower (path_suffix font_file) = ''.ttc'' \<or> font_index \<noteq> None \<longrightarrow>
        endswith (output_file_name font_file output_dir font_index) ''.ttf'')
   \<and> ((font_file = base @ ''.'' @ ext \<or> font_file = d @ ''/'' @ base @ ''.'' @ ext)
        \<and> base \<noteq> [] \<and> CHR ''/'' \<notin> set base
        \<and> ext \<noteq> [] \<and> CHR ''.'' \<notin> set ext \<and> CHR ''/'' \<notin> set ext \<longrightarrow>
        path_stem font_file = base \<and> path_suffix font_file = ''.'' @ ext)"
proof (intro conjI impI)
  show "output_file_name font_file output_dir (Some i)
     = os_path_join output_dir (path_stem font_file @ ''-'' @ str_int i @ ''-subset.ttf'')"
    by (rule output_file_name_index)
next
  assume "lower (path_suffix font_file) = ''.ttc''"
  then show "output_file_name font_file output_dir None
          = os_path_join output_dir (path_stem font_file @ ''-subset.ttf'')"
    by (simp add: output_file_name_def)
next
  assume "lower (path_suffix font_file) \<noteq> ''.ttc''"
  then show "output_file_name font_file output_dir None
          = os_path_join output_dir
              (path_stem font_file @ ''-subset'' @ lower (path_suffix font_file))"
    by (simp add: output_file_name_def)
next
  assume h: "lower (path_suffix font_file) = ''.ttc'' \<or> font_index \<noteq> None"
  show "endswith (output_file_name font_file output_dir font_index) ''.ttf''"
  proof (cases font_index)
    case None
    with h have "output_file_name font_file output_dir font_index
        = os_path_join output_dir ((path_stem font_file @ ''-subset'') @ ''.ttf'')"
      by (simp add: output_file_name_def)
    then show ?thesis
      by (simp only: endswith_os_path_join)
  next
    case (Some j)
    then have "output_file_name font_file output_dir font_index
        = os_path_join output_dir ((path_stem font_file @ ''-'' @ str_int j @ ''-subset'') @ ''.ttf'')"
      by (simp add: output_file_name_def)
    then show ?thesis
      by (simp only: endswith_os_path_join)
  qed
next
  assume h: "(font_file = base @ ''.'' @ ext \<or> font_file = d @ ''/'' @ base @ ''.'' @ ext)
        \<and> base \<noteq> [] \<and> CHR ''/'' \<notin> set base
        \<and> ext \<noteq> [] \<and> CHR ''.'' \<notin> set ext \<and> CHR ''/'' \<notin> set ext"
  have n1: "path_name (base @ ''.'' @ ext) = base @ CHR ''.'' # ext"
    using name_of_base_ext(1) h by simp
  have n2: "path_name (d @ ''/'' @ base @ ''.'' @ ext) = base @ CHR ''.'' # ext"
    using name_of_base_ext(2) h by simp
  have n: "path_name font_file = base @ CHR ''.'' # ext"
    using h n1 n2 by blast
  show "path_stem font_file = base"
    using suffix_stem_of_name(2) [OF n] h by simp
  show "path_suffix font_file = ''.'' @ ext"
    using suffix_stem_of_name(1) [OF n] h by simp
qed

theorem output_file_names_witness:
  "lower (path_suffix ''sourceFont/Collection.TTC'') = ''.ttc''
   \<and> output_file_name ''sourceFont/Collection.TTC'' ''targetFont'' None
       = os_path_join ''targetFont'' (path_stem ''sourceFont/Collection.TTC'' @ ''-subset.ttf'')
   \<and> endswith (output_file_name ''sourceFont/Collection.TTC'' ''targetFont'' None) ''.ttf''
   \<and> lower (path_suffix ''sourceFont/Serif.TTF'') \<noteq> ''.ttc''
   \<and> output_file_name ''sourceFont/Serif.TTF'' ''targetFont'' None
       = os_path_join ''targetFont''
           (path_stem ''sourceFont/Serif.TTF'' @ ''-subset''
              @ lower (path_suffix ''sourceFont/Serif.TTF''))
   \<and> ''sourceFont/Serif.TTF'' = ''sourceFont'' @ ''/'' @ ''Serif'' @ ''.'' @ ''TTF''
   \<and> path_stem ''sourceFont/Serif.TTF'' = ''Serif''
   \<and> path_suffix ''sourceFont/Serif.TTF'' = ''.'' @ ''TTF''"
proof -
  have a: "lower (path_suffix ''sourceFont/Collection.TTC'') = ''.ttc''"
    by code_simp
  have b: "lower (path_suffix ''sourceFont/Serif.TTF'') \<noteq> ''.ttc''"
    by code_simp
  have c: "''sourceFont/Serif.TTF'' = ''sourceFont'' @ ''/'' @ ''Serif'' @ ''.'' @ ''TTF''"
    by simp
  have d: "''Serif'' \<noteq> [] \<and> CHR ''/'' \<notin> set ''Serif''
        \<and> ''TTF'' \<noteq> [] \<and> CHR ''.'' \<notin> set ''TTF'' \<and> CHR ''/'' \<notin> set ''TTF''"
    by simp
  note t1 = output_file_names [where font_file = "''sourceFont/Collection.TTC''"
      and output_dir = "''targetFont''" and font_index = None]
  note t2 = output_file_names [where font_file = "''sourceFont/Serif.TTF''"
      and output_dir = "''targetFont''" and base = "''Serif''" and ext = "''TTF''"
      and d = "''sourceFont''"]
  have 1: "output_file_name ''sourceFont/Collection.TTC'' ''targetFont'' None
       = os_path_join ''targetFont'' (path_stem ''sourceFont/Collection.TTC'' @ ''-subset.ttf'')"
    using t1 a by blast
  have 2: "endswith (output_file_name ''sourceFont/Collection.TTC'' ''targetFont'' None) ''.ttf''"
    using t1 a by blast
  have 3: "output_file_name ''sourceFont/Serif.TTF'' ''targetFont'' None
       = os_path_join ''targetFont''
           (path_stem ''sourceFont/Serif.TTF'' @ ''-subset''
              @ lower (path_suffix ''sourceFont/Serif.TTF''))"
    using t2 b by blast
  have 4: "path_stem ''sourceFont/Serif.TTF'' = ''Serif''
      \<and> path_suffix ''sourceFont/Serif.TTF'' = ''.'' @ ''TTF''"
    using t2 c d by blast
  show ?thesis
    using a b c 1 2 3 4 by blast
qed

end
